theory Spec2Isabelle
  imports Main
begin

section \<open>Dynamic schema management of dataset-backed documents\<close>

text \<open>
  A shallow embedding of \<^verbatim>\<open>fiftyone/core/odm/mixins.py\<close>: the field registry of a
  document class (\<^verbatim>\<open>_fields\<close>, \<^verbatim>\<open>_fields_ordered\<close>), the dataset document that
  mirrors it, the storage collection, and the operations of \<^verbatim>\<open>DatasetMixin\<close> that
  keep the three in step. Python exceptions are values of the type \<open>error\<close>; every
  operation returns its outcome together with the state it leaves behind, because a
  raise keeps the mutations made before it. The functions carry the names of the source
  without the leading underscore of the private ones.
\<close>

subsection \<open>Errors\<close>

text \<open>
  The messages of the source are format strings; each constructor of \<open>message\<close> is one
  format string of the source with its arguments.
\<close>

datatype message =
    CannotRenameDefault string string
      \<comment> \<open>\<^verbatim>\<open>"Cannot rename default %s field '%s'" % (doc_name.lower(), field_name)\<close>\<close>
  | CannotDeleteDefault string string
      \<comment> \<open>\<^verbatim>\<open>"Cannot delete default %s field '%s'" % (doc_name.lower(), field_name)\<close>\<close>
  | DoesNotExist string string
      \<comment> \<open>\<^verbatim>\<open>"%s field '%s' does not exist" % (doc_name, field_name)\<close>\<close>
  | AlreadyExists string string
      \<comment> \<open>\<^verbatim>\<open>"%s field '%s' already exists" % (doc_name, new_field_name)\<close>\<close>
  | CannotCloneGroup string
      \<comment> \<open>\<^verbatim>\<open>"Cannot clone group field '%s'. Datasets may only have one group field"\<close>\<close>
  | FieldsDoNotExist string "string list"
      \<comment> \<open>\<^verbatim>\<open>"%s fields %s do not exist" % (doc_name, list(new_schema.keys()))\<close>\<close>
  | CannotInferType string string string
      \<comment> \<open>\<^verbatim>\<open>"Cannot infer an appropriate type for non-existent %s field '%s' while
          defining embedded field '%s'" % (doc_name, root, path)\<close>\<close>
  | NotEmbedded string string string
      \<comment> \<open>\<^verbatim>\<open>"Cannot define schema for embedded %s field '%s' because field '%s' is a
          %s, not an %s" % (doc_name, path, root, type(doc), EmbeddedDocumentField)\<close>,
          without the two types\<close>
  | NotDefined string string string
      \<comment> \<open>\<^verbatim>\<open>"Cannot add embedded %s field '%s' because field '%s' has not been
          defined" % (doc_name, path, root)\<close>\<close>
  | FrameLevelGroup string
      \<comment> \<open>\<^verbatim>\<open>"Cannot create frame-level group field '%s'. Group fields must be
          top-level sample fields"\<close>\<close>
  | SecondGroupField string
      \<comment> \<open>\<^verbatim>\<open>"Cannot add group field '%s'. Datasets may only have one group field"\<close>\<close>
  | ModifyingRoot string
      \<comment> \<open>\<^verbatim>\<open>"Modifying root of filtered list field '%s' is not allowed" % k\<close>\<close>
  | InvalidLiteral string
      \<comment> \<open>the message of \<^verbatim>\<open>int(s)\<close> on a string that is no integer literal\<close>
  | NotEnoughValues
      \<comment> \<open>unpacking the empty \<^verbatim>\<open>zip(*[])\<close> into two names\<close>
  | NoAttribute string
      \<comment> \<open>the message of an attribute lookup that fails, with the attribute\<close>
  | External string
      \<comment> \<open>a message of a collaborator outside this module\<close>

datatype error =
    ValueError message
  | AttributeError message
  | KeyError string
  | KeyErrorIndex int
  | TypeError string
  | IndexError

subsection \<open>Field descriptors\<close>

datatype doc_type = Group | EmbeddedDoc string

datatype field_type = ObjectIdField | ListField | EmbeddedDocumentField | ScalarField string

text \<open>
  A field descriptor. \<open>field\<close> is the contained field of a list field, \<open>document_type\<close>
  and \<open>fields\<close> are the document type and the declared attributes of an embedded
  document field (\<^verbatim>\<open>doc._fields\<close> in the source, a dict, here in insertion order).
\<close>

datatype field = Field
  (name: string)
  (db_field: "string option")
  (required: bool)
  (null: bool)
  (ftype: field_type)
  (field: "field option")
  (document_type: "doc_type option")
  (fields: "(string \<times> field) list")

definition set_name :: "string \<Rightarrow> field \<Rightarrow> field" where
  "set_name n f = Field n (db_field f) (required f) (null f) (ftype f) (field f)
     (document_type f) (fields f)"

definition set_db_field :: "string option \<Rightarrow> field \<Rightarrow> field" where
  "set_db_field d f = Field (name f) d (required f) (null f) (ftype f) (field f)
     (document_type f) (fields f)"

definition set_required :: "bool \<Rightarrow> field \<Rightarrow> field" where
  "set_required r f = Field (name f) (db_field f) r (null f) (ftype f) (field f)
     (document_type f) (fields f)"

definition set_null :: "bool \<Rightarrow> field \<Rightarrow> field" where
  "set_null b f = Field (name f) (db_field f) (required f) b (ftype f) (field f)
     (document_type f) (fields f)"

definition set_fields :: "(string \<times> field) list \<Rightarrow> field \<Rightarrow> field" where
  "set_fields fs f = Field (name f) (db_field f) (required f) (null f) (ftype f) (field f)
     (document_type f) fs"

definition set_field :: "field option \<Rightarrow> field \<Rightarrow> field" where
  "set_field s f = Field (name f) (db_field f) (required f) (null f) (ftype f) s
     (document_type f) (fields f)"

text \<open>
  \<^verbatim>\<open>_get_db_field(field, new_field_name)\<close>: the storage name a field gets under a new
  logical name. No storage name stays none; the underscore convention of identifier
  fields is kept; any other storage name becomes the new logical name.
\<close>

definition get_db_field :: "field \<Rightarrow> string \<Rightarrow> string option" where
  "get_db_field f new_field_name =
     (if db_field f = None then None
      else if db_field f = Some (CHR ''_'' # name f) then Some (CHR ''_'' # new_field_name)
      else Some new_field_name)"

text \<open>
  Modelled from the spec: \<^verbatim>\<open>fiftyone.core.groups.is_group_field\<close> is not part of this
  module; a descriptor "represents a group designation" when it is an embedded document
  field whose document type is the group type.
\<close>

definition is_group_field :: "field \<Rightarrow> bool" where
  "is_group_field f \<longleftrightarrow> ftype f = EmbeddedDocumentField \<and> document_type f = Some Group"

subsection \<open>The field registry of a document class\<close>

text \<open>
  The class attributes the mixin works on: \<^verbatim>\<open>_is_frames_doc\<close>, the mapping
  \<^verbatim>\<open>_fields\<close>, the tuple \<^verbatim>\<open>_fields_ordered\<close>, and the ordered field names of the
  base class \<^verbatim>\<open>cls.__bases__[0]\<close>, which are the default fields.

  Every field is also a class attribute. The fields of the base class are attributes of
  the base class, which the class inherits; every other registered field is an attribute
  of the class itself, set by \<^verbatim>\<open>setattr\<close> in \<^verbatim>\<open>_declare_field\<close> and in
  \<^verbatim>\<open>_rename_field_schema\<close> (the mixin is applied to \<^verbatim>\<open>Document\<close> subclasses, for
  which the rename always sets it). \<^verbatim>\<open>delattr(cls, field_name)\<close> removes an attribute of
  the class itself and raises \<^verbatim>\<open>AttributeError\<close> for one that is only inherited: it
  raises for the names of the base class's fields. (A name of the base class that has
  been declared again, or renamed to, on the class itself would be an attribute of both;
  the properties below keep to names where the two do not meet.)
\<close>

record doc_class =
  is_frames_doc :: bool
  cls_fields :: "string \<rightharpoonup> field"
  cls_fields_ordered :: "string list"
  base_fields_ordered :: "string list"

definition doc_name :: "doc_class \<Rightarrow> string" where
  "doc_name c = (if is_frames_doc c then ''Frame'' else ''Sample'')"

definition doc_name_lower :: "doc_class \<Rightarrow> string" where
  "doc_name_lower c = (if is_frames_doc c then ''frame'' else ''sample'')"

text \<open>
  \<^verbatim>\<open>_declare_field\<close>: \<^verbatim>\<open>prev = cls._fields.pop(field.name, None)\<close>, store the field,
  append the name when it is new, otherwise carry \<^verbatim>\<open>required\<close> and \<^verbatim>\<open>null\<close> over.
\<close>

definition declare_field :: "field \<Rightarrow> doc_class \<Rightarrow> doc_class" where
  "declare_field f c =
     (case cls_fields c (name f) of
        None \<Rightarrow> c\<lparr>cls_fields := (cls_fields c)(name f \<mapsto> f),
                  cls_fields_ordered := cls_fields_ordered c @ [name f]\<rparr>
      | Some prev \<Rightarrow>
          c\<lparr>cls_fields := (cls_fields c)(name f \<mapsto> set_null (null prev) (set_required (required prev) f))\<rparr>)"

text \<open>
  The registry half of \<^verbatim>\<open>_rename_field_schema\<close>: \<^verbatim>\<open>cls._fields.pop(field_name)\<close>
  raises \<^verbatim>\<open>KeyError\<close> on an unknown name, before anything is changed.
\<close>

definition rename_field_registry :: "string \<Rightarrow> string \<Rightarrow> doc_class \<Rightarrow> error + doc_class" where
  "rename_field_registry field_name new_field_name c =
     (case cls_fields c field_name of
        None \<Rightarrow> Inl (KeyError field_name)
      | Some f \<Rightarrow>
          let new_db_field = get_db_field f new_field_name;
              f' = set_db_field new_db_field (set_name new_field_name f)
          in Inr (c\<lparr>cls_fields := ((cls_fields c)(field_name := None))(new_field_name \<mapsto> f'),
                    cls_fields_ordered :=
                      map (\<lambda>fn. if fn \<noteq> field_name then fn else new_field_name)
                        (cls_fields_ordered c)\<rparr>))"

text \<open>The registry half of \<^verbatim>\<open>_delete_field_schema\<close>.\<close>

definition delete_field_registry :: "string \<Rightarrow> doc_class \<Rightarrow> error + doc_class" where
  "delete_field_registry field_name c =
     (case cls_fields c field_name of
        None \<Rightarrow> Inl (KeyError field_name)
      | Some f \<Rightarrow>
          Inr (c\<lparr>cls_fields := (cls_fields c)(field_name := None),
                 cls_fields_ordered := filter (\<lambda>fn. fn \<noteq> field_name) (cls_fields_ordered c)\<rparr>))"

subsection \<open>The dataset document, the storage collection and the state\<close>

text \<open>
  Modelled from the spec: \<^verbatim>\<open>SampleFieldDocument\<close> lives in \<^verbatim>\<open>.dataset\<close>; the schema
  document is a "persisted list of field descriptors", each with a name, a storage name,
  a type and the list of its embedded fields. \<^verbatim>\<open>from_field\<close> copies these from a field.
\<close>

datatype field_doc = SampleFieldDocument
  (doc_field_name: string)
  (doc_db_field: "string option")
  (doc_ftype: field_type)
  (doc_fields: "field_doc list")

fun from_field :: "field \<Rightarrow> field_doc" where
  "from_field (Field n d r nl t s dt fs) =
     SampleFieldDocument n d t (map (\<lambda>p. from_field (snd p)) fs)"

text \<open>
  The app config keeps saved field paths; \<^verbatim>\<open>_rename_paths\<close> and \<^verbatim>\<open>_delete_paths\<close>
  belong to it. The model records the calls it receives, oldest first.
\<close>

datatype app_call = RenamePaths "string list" "string list" | DeletePaths "string list"

record dataset_document =
  media_type :: string
  group_field :: "string option"
  sample_fields :: "field_doc list"
  frame_fields :: "field_doc list"
  app_config :: "app_call list"

text \<open>
  Modelled from the spec: the constant \<^verbatim>\<open>fiftyone.core.media.GROUP\<close>, the media type
  that "indicates grouped records".
\<close>

definition GROUP :: string where
  "GROUP = ''group''"

text \<open>
  The operations sent to the storage collection. \<open>Rename\<close> is
  \<^verbatim>\<open>update_many({}, {"$rename": rename_expr})\<close>, \<open>SetFrom\<close> is
  \<^verbatim>\<open>update_many({}, [{"$set": set_expr}])\<close>, \<open>Unset\<close> is \<^verbatim>\<open>update_many({}, [{"$unset": _field_names}])\<close>. \<open>ViewSave\<close> is
  the view of \<^verbatim>\<open>_clone_fields_collection\<close>: the \<^verbatim>\<open>set_field\<close> calls in order, each
  with its path and whether the expression is \<^verbatim>\<open>F(leaf)\<close> (\<open>Inl leaf\<close>) or
  \<^verbatim>\<open>F("$" + field_name)\<close> (\<open>Inr field_name\<close>), and the paths whose roots are saved.
\<close>

datatype db_op =
    Rename "(string \<times> string) list"
  | SetFrom "(string \<times> string) list"
  | Unset "string list"
  | ViewSave "(string \<times> (string + string)) list" "string list"

text \<open>
  The state an operation works on: the class, the dataset document in memory, the
  dataset document as last written by \<^verbatim>\<open>dataset_doc.save()\<close>, the operations the
  collection has received, and the warnings logged by the error-level policy. An
  operation called with \<^verbatim>\<open>dataset_doc=None\<close> fetches the dataset document of the class;
  in either case it works on the document of the state.
\<close>

record state =
  cls :: doc_class
  dataset_doc :: dataset_document
  saved_doc :: dataset_document
  db :: "db_op list"
  warnings :: "error list"

definition save :: "state \<Rightarrow> state" where
  "save st = st\<lparr>saved_doc := dataset_doc st\<rparr>"

text \<open>\<^verbatim>\<open>getattr(dataset_doc, cls._fields_attr())\<close> and its assignment.\<close>

definition field_docs_of :: "doc_class \<Rightarrow> dataset_document \<Rightarrow> field_doc list" where
  "field_docs_of c d = (if is_frames_doc c then frame_fields d else sample_fields d)"

definition set_field_docs :: "doc_class \<Rightarrow> field_doc list \<Rightarrow> dataset_document \<Rightarrow> dataset_document" where
  "set_field_docs c fds d =
     (if is_frames_doc c then d\<lparr>frame_fields := fds\<rparr> else d\<lparr>sample_fields := fds\<rparr>)"

text \<open>A Python dict as an association list in insertion order: \<^verbatim>\<open>d[k] = v\<close>.\<close>

fun dict_set :: "'k \<Rightarrow> 'v \<Rightarrow> ('k \<times> 'v) list \<Rightarrow> ('k \<times> 'v) list" where
  "dict_set k v [] = [(k, v)]"
| "dict_set k v (p # ps) = (if fst p = k then (k, v) # ps else p # dict_set k v ps)"

definition dict_of :: "('k \<times> 'v) list \<Rightarrow> ('k \<times> 'v) list" where
  "dict_of ps = foldl (\<lambda>d p. dict_set (fst p) (snd p) d) [] ps"

subsection \<open>The schema-document halves of rename and delete\<close>

text \<open>
  \<^verbatim>\<open>for f in fields: if f.name == field_name: f.name = new_field_name; f.db_field =
  new_db_field\<close>
\<close>

definition rename_field_docs :: "string \<Rightarrow> string \<Rightarrow> string option \<Rightarrow> field_doc list \<Rightarrow> field_doc list" where
  "rename_field_docs field_name new_field_name new_db_field fds =
     map (\<lambda>f. if doc_field_name f = field_name
               then SampleFieldDocument new_field_name new_db_field (doc_ftype f) (doc_fields f)
               else f) fds"

text \<open>
  \<^verbatim>\<open>for idx, f in enumerate(fields): if f.name == field_name: del fields[idx]; break\<close>
\<close>

fun delete_field_doc :: "string \<Rightarrow> field_doc list \<Rightarrow> field_doc list" where
  "delete_field_doc field_name [] = []"
| "delete_field_doc field_name (f # fds) =
     (if doc_field_name f = field_name then fds else f # delete_field_doc field_name fds)"

text \<open>
  \<^verbatim>\<open>_rename_field_schema(field_name, new_field_name, dataset_doc)\<close>: the registry, then
  \<^verbatim>\<open>delattr(cls, field_name)\<close>, which raises for a field of the base class and leaves
  the registry changed, then the field documents of the dataset document in memory.
\<close>

definition rename_field_schema :: "string \<Rightarrow> string \<Rightarrow> state \<Rightarrow> error option \<times> state" where
  "rename_field_schema field_name new_field_name st =
     (case cls_fields (cls st) field_name of
        None \<Rightarrow> (Some (KeyError field_name), st)
      | Some f \<Rightarrow>
          (case rename_field_registry field_name new_field_name (cls st) of
             Inl e \<Rightarrow> (Some e, st)
           | Inr c' \<Rightarrow>
               if field_name \<in> set (base_fields_ordered (cls st))
               then (Some (AttributeError (NoAttribute field_name)), st\<lparr>cls := c'\<rparr>)
               else (None,
                     st\<lparr>cls := c',
                        dataset_doc :=
                          set_field_docs (cls st)
                            (rename_field_docs field_name new_field_name
                               (get_db_field f new_field_name)
                               (field_docs_of (cls st) (dataset_doc st)))
                            (dataset_doc st)\<rparr>)))"

text \<open>
  \<^verbatim>\<open>_delete_field_schema(field_name, dataset_doc)\<close>: the registry, then
  \<^verbatim>\<open>delattr(cls, field_name)\<close>, then the field document.
\<close>

definition delete_field_schema :: "string \<Rightarrow> state \<Rightarrow> error option \<times> state" where
  "delete_field_schema field_name st =
     (case delete_field_registry field_name (cls st) of
        Inl e \<Rightarrow> (Some e, st)
      | Inr c' \<Rightarrow>
          if field_name \<in> set (base_fields_ordered (cls st))
          then (Some (AttributeError (NoAttribute field_name)), st\<lparr>cls := c'\<rparr>)
          else (None,
                st\<lparr>cls := c',
                   dataset_doc :=
                     set_field_docs (cls st)
                       (delete_field_doc field_name (field_docs_of (cls st) (dataset_doc st)))
                       (dataset_doc st)\<rparr>))"

subsection \<open>Collaborators\<close>

text \<open>
  The functions this module imports and calls but does not define, as parameters:
  \<^verbatim>\<open>validate_field_name(name, media_type=, is_frame_field=)\<close> and
  \<^verbatim>\<open>validate_fields_match(path, field, existing_field)\<close> of \<^verbatim>\<open>.utils\<close>, which raise or
  return nothing; \<^verbatim>\<open>existing_field._merge_fields(path, field, validate=, recursive=)\<close>
  of an embedded document field, which raises or returns a dict of new fields or
  \<^verbatim>\<open>None\<close>; and \<^verbatim>\<open>doc._declare_field(field)\<close> of an embedded document field, which
  returns the field with the new attribute declared.
\<close>

record env =
  validate_field_name :: "string \<Rightarrow> string \<Rightarrow> bool \<Rightarrow> error option"
  validate_fields_match :: "string \<Rightarrow> field \<Rightarrow> field \<Rightarrow> error option"
  merge_fields :: "field \<Rightarrow> string \<Rightarrow> field \<Rightarrow> bool \<Rightarrow> bool \<Rightarrow> error + (string \<times> field) list option"
  declare_embedded :: "field \<Rightarrow> field \<Rightarrow> field"

text \<open>
  Modelled from the spec: \<^verbatim>\<open>fiftyone.core.utils.handle_error\<close>, the error-level
  policy "raise / warn / ignore"; the docstring of \<^verbatim>\<open>_delete_fields\<close> gives the
  levels: 0 raises, 1 logs a warning, 2 ignores.
\<close>

definition handle_error :: "error \<Rightarrow> int \<Rightarrow> state \<Rightarrow> error option \<times> state" where
  "handle_error e error_level st =
     (if error_level = 0 then (Some e, st)
      else if error_level = 1 then (None, st\<lparr>warnings := warnings st @ [e]\<rparr>)
      else (None, st))"

subsection \<open>Default fields and storage names\<close>

text \<open>
  \<^verbatim>\<open>_get_default_fields(dataset_doc=None)\<close>: the ordered field names of the base class,
  private ones included, and the group field of a grouped dataset on the sample class.
  (A group field that is \<^verbatim>\<open>None\<close> adds \<^verbatim>\<open>None\<close> to the Python set, which no field
  name equals.)
\<close>

definition get_default_fields :: "doc_class \<Rightarrow> dataset_document option \<Rightarrow> string set" where
  "get_default_fields c dd =
     set (base_fields_ordered c) \<union>
     (case dd of
        None \<Rightarrow> {}
      | Some d \<Rightarrow>
          if media_type d = GROUP \<and> \<not> is_frames_doc c
          then (case group_field d of None \<Rightarrow> {} | Some g \<Rightarrow> {g})
          else {})"

text \<open>
  \<^verbatim>\<open>_handle_db_field(field_name)\<close> and \<^verbatim>\<open>_handle_db_field(field_name, new_field_name)\<close>.
  In the second, \<^verbatim>\<open>_get_db_field\<close> is called on a field with a storage name only, where it
  returns a name; the \<open>None\<close> branch below is never taken.
\<close>

definition handle_db_field :: "doc_class \<Rightarrow> string \<Rightarrow> string" where
  "handle_db_field c field_name =
     (case cls_fields c field_name of
        None \<Rightarrow> field_name
      | Some f \<Rightarrow> (case db_field f of None \<Rightarrow> field_name | Some d \<Rightarrow> d))"

definition handle_db_field_new :: "doc_class \<Rightarrow> string \<Rightarrow> string \<Rightarrow> string \<times> string" where
  "handle_db_field_new c field_name new_field_name =
     (case cls_fields c field_name of
        None \<Rightarrow> (field_name, new_field_name)
      | Some f \<Rightarrow>
          (case db_field f of
             None \<Rightarrow> (field_name, new_field_name)
           | Some d \<Rightarrow>
               (case get_db_field f new_field_name of
                  Some n \<Rightarrow> (d, n)
                | None \<Rightarrow> (d, new_field_name))))"

text \<open>
  \<^verbatim>\<open>_handle_db_fields(field_names, new_field_names)\<close> is \<^verbatim>\<open>zip(*[...])\<close> of the pairs;
  unpacking it into two names raises when there is no pair.
\<close>

definition handle_db_fields :: "doc_class \<Rightarrow> string list \<Rightarrow> string list" where
  "handle_db_fields c field_names = map (handle_db_field c) field_names"

definition handle_db_fields_new :: "doc_class \<Rightarrow> string list \<Rightarrow> string list \<Rightarrow> error + (string \<times> string) list" where
  "handle_db_fields_new c field_names new_field_names =
     (let pairs = map (\<lambda>p. handle_db_field_new c (fst p) (snd p)) (zip field_names new_field_names)
      in if pairs = [] then Inl (ValueError NotEnoughValues) else Inr pairs)"

subsection \<open>Storage rewrites\<close>

text \<open>\<^verbatim>\<open>_rename_fields_simple\<close>, \<^verbatim>\<open>_clone_fields_simple\<close>, \<^verbatim>\<open>_delete_fields_simple\<close>.\<close>

definition rename_fields_simple :: "string list \<Rightarrow> string list \<Rightarrow> state \<Rightarrow> error option \<times> state" where
  "rename_fields_simple field_names new_field_names st =
     (if field_names = [] then (None, st)
      else case handle_db_fields_new (cls st) field_names new_field_names of
        Inl e \<Rightarrow> (Some e, st)
      | Inr pairs \<Rightarrow> (None, st\<lparr>db := db st @ [Rename (dict_of pairs)]\<rparr>))"

definition clone_fields_simple :: "string list \<Rightarrow> string list \<Rightarrow> state \<Rightarrow> error option \<times> state" where
  "clone_fields_simple field_names new_field_names st =
     (if field_names = [] then (None, st)
      else case handle_db_fields_new (cls st) field_names new_field_names of
        Inl e \<Rightarrow> (Some e, st)
      | Inr pairs \<Rightarrow>
          (None, st\<lparr>db := db st @ [SetFrom (dict_of (map (\<lambda>p. (snd p, CHR ''$'' # fst p)) pairs))]\<rparr>))"

definition delete_fields_simple :: "string list \<Rightarrow> state \<Rightarrow> state" where
  "delete_fields_simple field_names st =
     (if field_names = [] then st
      else st\<lparr>db := db st @ [Unset (handle_db_fields (cls st) field_names)]\<rparr>)"

text \<open>
  \<^verbatim>\<open>s.rsplit(".", 1)\<close> when \<open>s\<close> has a dot: the part before the last dot and the part
  after it.
\<close>

definition rsplit_dot :: "string \<Rightarrow> (string \<times> string) option" where
  "rsplit_dot s =
     (if CHR ''.'' \<in> set s
      then Some (rev (tl (dropWhile (\<lambda>c. c \<noteq> CHR ''.'') (rev s))),
                 rev (takeWhile (\<lambda>c. c \<noteq> CHR ''.'') (rev s)))
      else None)"

text \<open>
  \<^verbatim>\<open>_clone_fields_collection\<close>, for a sample collection whose \<^verbatim>\<open>_FRAMES_PREFIX\<close> is
  \<open>prefix\<close>. The view, \<^verbatim>\<open>_get_root_fields\<close> and \<^verbatim>\<open>view.save\<close> belong to the collection;
  the model records what they are given.
\<close>

definition clone_expr :: "string \<Rightarrow> string \<Rightarrow> string \<times> (string + string)" where
  "clone_expr field_name new_field_name =
     (let new_base = (case rsplit_dot new_field_name of None \<Rightarrow> new_field_name | Some bl \<Rightarrow> fst bl);
          base_leaf = (case rsplit_dot field_name of None \<Rightarrow> (field_name, []) | Some bl \<Rightarrow> bl)
      in (new_field_name,
          if new_base = fst base_leaf then Inl (snd base_leaf) else Inr (CHR ''$'' # field_name)))"

definition clone_fields_collection :: "string \<Rightarrow> string list \<Rightarrow> string list \<Rightarrow> state \<Rightarrow> error option \<times> state" where
  "clone_fields_collection prefix field_names new_field_names st =
     (if field_names = [] then (None, st)
      else case handle_db_fields_new (cls st) field_names new_field_names of
        Inl e \<Rightarrow> (Some e, st)
      | Inr pairs \<Rightarrow>
          (let pre = (\<lambda>f. if is_frames_doc (cls st) then prefix @ f else f)
           in (None,
               st\<lparr>db := db st @
                  [ViewSave (map (\<lambda>p. clone_expr (pre (fst p)) (pre (snd p))) pairs)
                     (map pre new_field_names)]\<rparr>)))"

subsection \<open>Paths\<close>

text \<open>\<^verbatim>\<open>path.split(".")\<close>: never empty; the empty string gives one empty chunk.\<close>

fun split_dot :: "string \<Rightarrow> string list" where
  "split_dot [] = [[]]"
| "split_dot (c # cs) =
     (if c = CHR ''.'' then [] # split_dot cs
      else (case split_dot cs of [] \<Rightarrow> [[c]] | w # ws \<Rightarrow> (c # w) # ws))"

text \<open>
  \<^verbatim>\<open>root = chunk if root is None else root + "." + chunk\<close>, and
  \<^verbatim>\<open>if isinstance(doc, ListField): doc = doc.field\<close> (which may be \<^verbatim>\<open>None\<close>).
\<close>

definition extend_root :: "string option \<Rightarrow> string \<Rightarrow> string" where
  "extend_root root chunk = (case root of None \<Rightarrow> chunk | Some r \<Rightarrow> r @ ''.'' @ chunk)"

definition unwrap_list :: "field \<Rightarrow> field option" where
  "unwrap_list x = (if ftype x = ListField then field x else Some x)"

subsection \<open>Adding a field to the schema\<close>

text \<open>
  The loop of \<^verbatim>\<open>_add_field_schema\<close> over \<^verbatim>\<open>chunks[:-1]\<close>: per chunk, first the field
  documents (\<^verbatim>\<open>field_docs = field_doc.fields\<close> of the first document of that name),
  then the registry (\<^verbatim>\<open>doc = doc._fields[chunk]\<close>, unwrapped, required to be an embedded
  document field). It returns the error it raises, if any.
\<close>

fun add_field_walk ::
  "doc_class \<Rightarrow> string \<Rightarrow> string list \<Rightarrow> string option \<Rightarrow> field_doc list \<Rightarrow> (string \<rightharpoonup> field)
     \<Rightarrow> error option" where
  "add_field_walk c path [] root fds flds = None"
| "add_field_walk c path (chunk # chunks) root fds flds =
     (case find (\<lambda>fd. doc_field_name fd = chunk) fds of
        None \<Rightarrow> Some (ValueError (NotDefined (doc_name c) path (extend_root root chunk)))
      | Some fd \<Rightarrow>
          (case flds chunk of
             None \<Rightarrow> Some (KeyError chunk)
           | Some x \<Rightarrow>
               (case unwrap_list x of
                  None \<Rightarrow> Some (ValueError (NotEmbedded (doc_name c) path (extend_root root chunk)))
                | Some d \<Rightarrow>
                    if ftype d \<noteq> EmbeddedDocumentField
                    then Some (ValueError (NotEmbedded (doc_name c) path (extend_root root chunk)))
                    else add_field_walk c path chunks (Some (extend_root root chunk))
                           (doc_fields fd) (map_of (field.fields d)))))"

text \<open>
  The source then mutates the embedded document field and the list of field documents it
  has reached, in place. Here the mutation is written back along the path: \<open>put_embedded\<close>
  applies \<open>g\<close> to the embedded document field reached from the registry entry \<open>x\<close>
  through the chunks, \<open>docs_append\<close> appends to the list of field documents reached
  through the chunks. Both are only used after \<open>add_field_walk\<close> has found the path.
\<close>

definition in_container :: "(field \<Rightarrow> field) \<Rightarrow> field \<Rightarrow> field" where
  "in_container h x =
     (if ftype x = ListField
      then (case field x of None \<Rightarrow> x | Some e \<Rightarrow> set_field (Some (h e)) x)
      else h x)"

fun put_embedded :: "(field \<Rightarrow> field) \<Rightarrow> string list \<Rightarrow> field \<Rightarrow> field" where
  "put_embedded g [] x = in_container g x"
| "put_embedded g (chunk # chunks) x =
     in_container
       (\<lambda>d. case map_of (field.fields d) chunk of
               None \<Rightarrow> d
             | Some y \<Rightarrow> set_fields (dict_set chunk (put_embedded g chunks y) (field.fields d)) d) x"

fun update_first :: "string \<Rightarrow> (field_doc \<Rightarrow> field_doc) \<Rightarrow> field_doc list \<Rightarrow> field_doc list" where
  "update_first n h [] = []"
| "update_first n h (fd # fds) =
     (if doc_field_name fd = n then h fd # fds else fd # update_first n h fds)"

fun docs_append :: "string list \<Rightarrow> field_doc \<Rightarrow> field_doc list \<Rightarrow> field_doc list" where
  "docs_append [] new_doc fds = fds @ [new_doc]"
| "docs_append (chunk # chunks) new_doc fds =
     update_first chunk
       (\<lambda>fd. SampleFieldDocument (doc_field_name fd) (doc_db_field fd) (doc_ftype fd)
                (docs_append chunks new_doc (doc_fields fd))) fds"

text \<open>
  \<^verbatim>\<open>_add_field_schema(path, field, dataset_doc)\<close>. The copy of the field gets its storage
  name from \<^verbatim>\<open>_get_db_field(field, name)\<close>, computed before the name is set.
\<close>

definition add_field_schema :: "env \<Rightarrow> string \<Rightarrow> field \<Rightarrow> state \<Rightarrow> error option \<times> state" where
  "add_field_schema en path fld st =
     (let chunks = split_dot path;
          c = cls st;
          fds = field_docs_of c (dataset_doc st)
      in case add_field_walk c path (butlast chunks) None fds (cls_fields c) of
           Some e \<Rightarrow> (Some e, st)
         | None \<Rightarrow>
             (let fld' = set_name (last chunks) (set_db_field (get_db_field fld (last chunks)) fld);
                  c' = (case butlast chunks of
                          [] \<Rightarrow> declare_field fld' c
                        | chunk # rest \<Rightarrow>
                            (case cls_fields c chunk of
                               None \<Rightarrow> c
                             | Some x \<Rightarrow>
                                 c\<lparr>cls_fields := (cls_fields c)
                                     (chunk \<mapsto> put_embedded (\<lambda>d. declare_embedded en d fld') rest x)\<rparr>))
              in (None,
                  st\<lparr>cls := c',
                     dataset_doc :=
                       set_field_docs c (docs_append (butlast chunks) (from_field fld') fds)
                         (dataset_doc st)\<rparr>)))"

text \<open>\<^verbatim>\<open>_clone_field_schema\<close>: \<^verbatim>\<open>cls._fields[field_name]\<close> raises on an unknown name.\<close>

definition clone_field_schema :: "env \<Rightarrow> string \<Rightarrow> string \<Rightarrow> state \<Rightarrow> error option \<times> state" where
  "clone_field_schema en field_name new_field_name st =
     (case cls_fields (cls st) field_name of
        None \<Rightarrow> (Some (KeyError field_name), st)
      | Some f \<Rightarrow> add_field_schema en new_field_name f st)"

subsection \<open>Batch rename, clone and delete of top-level fields\<close>

text \<open>
  A loop \<^verbatim>\<open>for field_name, new_field_name in zip(...): step(...)\<close> over a state, and the
  same over single names; a raise ends it.
\<close>

fun for_each :: "('a \<Rightarrow> state \<Rightarrow> error option \<times> state) \<Rightarrow> 'a list \<Rightarrow> state \<Rightarrow> error option \<times> state" where
  "for_each step [] st = (None, st)"
| "for_each step (x # xs) st =
     (case step x st of
        (Some e, st') \<Rightarrow> (Some e, st')
      | (None, st') \<Rightarrow> for_each step xs st')"

text \<open>
  One pass of the validation loop of \<^verbatim>\<open>_rename_fields\<close>. \<open>default_fields\<close> is
  \<^verbatim>\<open>cls._get_default_fields()\<close> and \<open>mt\<close> is \<^verbatim>\<open>dataset_doc.media_type\<close>, both read before
  the loop. The pass for a group field sets \<^verbatim>\<open>dataset_doc.group_field\<close> in memory.
\<close>

definition rename_check :: "env \<Rightarrow> string set \<Rightarrow> string \<Rightarrow> string \<times> string \<Rightarrow> state \<Rightarrow> error option \<times> state" where
  "rename_check en default_fields mt p st =
     (let field_name = fst p; new_field_name = snd p; c = cls st
      in if field_name \<in> default_fields
         then (Some (ValueError (CannotRenameDefault (doc_name_lower c) field_name)), st)
         else case cls_fields c field_name of
           None \<Rightarrow> (Some (AttributeError (DoesNotExist (doc_name c) field_name)), st)
         | Some existing_field \<Rightarrow>
             if cls_fields c new_field_name \<noteq> None
             then (Some (ValueError (AlreadyExists (doc_name c) new_field_name)), st)
             else case validate_field_name en new_field_name mt (is_frames_doc c) of
               Some e \<Rightarrow> (Some e, st)
             | None \<Rightarrow>
                 if is_group_field existing_field
                 then (None, st\<lparr>dataset_doc := (dataset_doc st)\<lparr>group_field := Some new_field_name\<rparr>\<rparr>)
                 else (None, st))"

text \<open>\<^verbatim>\<open>_rename_fields(field_names, new_field_names, dataset_doc)\<close>.\<close>

definition rename_fields :: "env \<Rightarrow> string list \<Rightarrow> string list \<Rightarrow> state \<Rightarrow> error option \<times> state" where
  "rename_fields en field_names new_field_names st =
     (case for_each (rename_check en (get_default_fields (cls st) None) (media_type (dataset_doc st)))
             (zip field_names new_field_names) st of
        (Some e, st1) \<Rightarrow> (Some e, st1)
      | (None, st1) \<Rightarrow>
          (case rename_fields_simple field_names new_field_names st1 of
             (Some e, st2) \<Rightarrow> (Some e, st2)
           | (None, st2) \<Rightarrow>
               (case for_each (\<lambda>p. rename_field_schema (fst p) (snd p))
                       (zip field_names new_field_names) st2 of
                  (Some e, st3) \<Rightarrow> (Some e, st3)
                | (None, st3) \<Rightarrow>
                    (None,
                     save (st3\<lparr>dataset_doc := (dataset_doc st3)
                       \<lparr>app_config := app_config (dataset_doc st3)
                           @ [RenamePaths field_names new_field_names]\<rparr>\<rparr>)))))"

text \<open>One pass of the validation loop of \<^verbatim>\<open>_clone_fields\<close>; it changes nothing.\<close>

definition clone_check :: "env \<Rightarrow> string \<Rightarrow> string \<times> string \<Rightarrow> state \<Rightarrow> error option \<times> state" where
  "clone_check en mt p st =
     (let field_name = fst p; new_field_name = snd p; c = cls st
      in case cls_fields c field_name of
           None \<Rightarrow> (Some (AttributeError (DoesNotExist (doc_name c) field_name)), st)
         | Some existing_field \<Rightarrow>
             if cls_fields c new_field_name \<noteq> None
             then (Some (ValueError (AlreadyExists (doc_name c) new_field_name)), st)
             else if is_group_field existing_field
             then (Some (ValueError (CannotCloneGroup field_name)), st)
             else (validate_field_name en new_field_name mt (is_frames_doc c), st))"

text \<open>
  \<^verbatim>\<open>_clone_fields(field_names, new_field_names, sample_collection, dataset_doc)\<close>; the
  sample collection is given by its frames prefix.
\<close>

definition clone_fields ::
  "env \<Rightarrow> string list \<Rightarrow> string list \<Rightarrow> string option \<Rightarrow> state \<Rightarrow> error option \<times> state" where
  "clone_fields en field_names new_field_names sample_collection st =
     (case for_each (clone_check en (media_type (dataset_doc st)))
             (zip field_names new_field_names) st of
        (Some e, st1) \<Rightarrow> (Some e, st1)
      | (None, st1) \<Rightarrow>
          (case (case sample_collection of
                   None \<Rightarrow> clone_fields_simple field_names new_field_names st1
                 | Some prefix \<Rightarrow> clone_fields_collection prefix field_names new_field_names st1) of
             (Some e, st2) \<Rightarrow> (Some e, st2)
           | (None, st2) \<Rightarrow>
               (case for_each (\<lambda>p. clone_field_schema en (fst p) (snd p))
                       (zip field_names new_field_names) st2 of
                  (Some e, st3) \<Rightarrow> (Some e, st3)
                | (None, st3) \<Rightarrow> (None, save st3))))"

text \<open>
  The first loop of \<^verbatim>\<open>_delete_fields\<close>: a default field or an unknown field goes to the
  error-level policy, any other name is appended to \<^verbatim>\<open>del_fields\<close>.
\<close>

fun collect_del_fields ::
  "string set \<Rightarrow> int \<Rightarrow> string list \<Rightarrow> string list \<Rightarrow> state \<Rightarrow> (error + string list) \<times> state" where
  "collect_del_fields default_fields error_level [] del_fields st = (Inr del_fields, st)"
| "collect_del_fields default_fields error_level (field_name # rest) del_fields st =
     (if field_name \<in> default_fields
      then (case handle_error
                   (ValueError (CannotDeleteDefault (doc_name_lower (cls st)) field_name))
                   error_level st of
              (Some e, st') \<Rightarrow> (Inl e, st')
            | (None, st') \<Rightarrow> collect_del_fields default_fields error_level rest del_fields st')
      else if cls_fields (cls st) field_name = None
      then (case handle_error
                   (AttributeError (DoesNotExist (doc_name (cls st)) field_name))
                   error_level st of
              (Some e, st') \<Rightarrow> (Inl e, st')
            | (None, st') \<Rightarrow> collect_del_fields default_fields error_level rest del_fields st')
      else collect_del_fields default_fields error_level rest (del_fields @ [field_name]) st)"

text \<open>\<^verbatim>\<open>_delete_fields(field_names, dataset_doc, error_level)\<close>.\<close>

definition delete_fields :: "string list \<Rightarrow> int \<Rightarrow> state \<Rightarrow> error option \<times> state" where
  "delete_fields field_names error_level st =
     (case collect_del_fields (get_default_fields (cls st) (Some (dataset_doc st))) error_level
             field_names [] st of
        (Inl e, st1) \<Rightarrow> (Some e, st1)
      | (Inr del_fields, st1) \<Rightarrow>
          if del_fields = [] then (None, st1)
          else (case for_each delete_field_schema del_fields (delete_fields_simple del_fields st1) of
                  (Some e, st3) \<Rightarrow> (Some e, st3)
                | (None, st3) \<Rightarrow>
                    (None,
                     save (st3\<lparr>dataset_doc := (dataset_doc st3)
                       \<lparr>app_config := app_config (dataset_doc st3) @ [DeletePaths field_names]\<rparr>\<rparr>))))"

subsection \<open>Merging a schema\<close>

text \<open>
  The loop of \<^verbatim>\<open>_merge_field\<close> over \<^verbatim>\<open>chunks[:-1]\<close>: it returns \<^verbatim>\<open>doc._fields\<close> of the
  document it ends in, or the error it raises.
\<close>

fun merge_walk ::
  "doc_class \<Rightarrow> string \<Rightarrow> string list \<Rightarrow> string option \<Rightarrow> (string \<rightharpoonup> field)
     \<Rightarrow> error + (string \<rightharpoonup> field)" where
  "merge_walk c path [] root flds = Inr flds"
| "merge_walk c path (chunk # chunks) root flds =
     (case flds chunk of
        None \<Rightarrow> Inl (ValueError (CannotInferType (doc_name c) (extend_root root chunk) path))
      | Some x \<Rightarrow>
          (case unwrap_list x of
             None \<Rightarrow> Inl (ValueError (NotEmbedded (doc_name c) path (extend_root root chunk)))
           | Some d \<Rightarrow>
               if ftype d \<noteq> EmbeddedDocumentField
               then Inl (ValueError (NotEmbedded (doc_name c) path (extend_root root chunk)))
               else merge_walk c path chunks (Some (extend_root root chunk))
                      (map_of (field.fields d))))"

text \<open>
  \<^verbatim>\<open>_merge_field(path, field, dataset_doc, validate, recursive)\<close>. It reads the class and
  the dataset document and changes neither; it returns \<^verbatim>\<open>None\<close> or the dict
  \<^verbatim>\<open>{path: field}\<close>, or what \<^verbatim>\<open>_merge_fields\<close> of the existing embedded field returns.
\<close>

definition merge_field ::
  "env \<Rightarrow> string \<Rightarrow> field \<Rightarrow> bool \<Rightarrow> bool \<Rightarrow> state \<Rightarrow> error + (string \<times> field) list option" where
  "merge_field en path fld validate recursive st =
     (let chunks = split_dot path; c = cls st
      in case merge_walk c path (butlast chunks) None (cls_fields c) of
           Inl e \<Rightarrow> Inl e
         | Inr flds \<Rightarrow>
             (let field_name =
                    (if ftype fld = ObjectIdField \<and> take 1 (last chunks) = ''_''
                     then drop 1 (last chunks) else last chunks)
              in if field_name = ''id'' then Inr None
                 else case flds field_name of
                   Some existing_field \<Rightarrow>
                     if recursive \<and> ftype existing_field = EmbeddedDocumentField
                     then merge_fields en existing_field path fld validate recursive
                     else if validate
                     then (case validate_fields_match en path fld existing_field of
                             Some e \<Rightarrow> Inl e
                           | None \<Rightarrow> Inr None)
                     else Inr None
                 | None \<Rightarrow>
                     (case validate_field_name en field_name (media_type (dataset_doc st))
                             (is_frames_doc c) of
                        Some e \<Rightarrow> Inl e
                      | None \<Rightarrow>
                          if is_group_field fld
                          then (if is_frames_doc c
                                then Inl (ValueError (FrameLevelGroup field_name))
                                else if group_field (dataset_doc st) \<noteq> None \<and>
                                        group_field (dataset_doc st) \<noteq> Some field_name
                                then Inl (ValueError (SecondGroupField field_name))
                                else Inr (Some [(path, fld)]))
                          else Inr (Some [(path, fld)]))))"

text \<open>\<^verbatim>\<open>new_schema.update(new_fields)\<close>.\<close>

definition dict_update :: "('k \<times> 'v) list \<Rightarrow> ('k \<times> 'v) list \<Rightarrow> ('k \<times> 'v) list" where
  "dict_update d new = foldl (\<lambda>acc p. dict_set (fst p) (snd p) acc) d new"

text \<open>
  The first loop of \<^verbatim>\<open>merge_field_schema\<close> over \<^verbatim>\<open>schema.items()\<close>, with \<^verbatim>\<open>new_schema\<close>
  as accumulator; \<^verbatim>\<open>if new_fields:\<close> passes over \<^verbatim>\<open>None\<close> and the empty dict.
\<close>

fun merge_loop ::
  "env \<Rightarrow> bool \<Rightarrow> bool \<Rightarrow> state \<Rightarrow> (string \<times> field) list \<Rightarrow> (string \<times> field) list
     \<Rightarrow> error + (string \<times> field) list" where
  "merge_loop en validate recursive st [] new_schema = Inr new_schema"
| "merge_loop en validate recursive st (pf # schema) new_schema =
     (case merge_field en (fst pf) (snd pf) validate recursive st of
        Inl e \<Rightarrow> Inl e
      | Inr None \<Rightarrow> merge_loop en validate recursive st schema new_schema
      | Inr (Some new_fields) \<Rightarrow>
          merge_loop en validate recursive st schema
            (if new_fields = [] then new_schema else dict_update new_schema new_fields))"

text \<open>
  \<^verbatim>\<open>merge_field_schema(schema, expand_schema, recursive, validate, dataset_doc)\<close>; the
  schema is the list of the items of the dict.
\<close>

definition merge_field_schema ::
  "env \<Rightarrow> (string \<times> field) list \<Rightarrow> bool \<Rightarrow> bool \<Rightarrow> bool \<Rightarrow> state \<Rightarrow> (error + bool) \<times> state" where
  "merge_field_schema en schema expand_schema recursive validate st =
     (case merge_loop en validate recursive st schema [] of
        Inl e \<Rightarrow> (Inl e, st)
      | Inr new_schema \<Rightarrow>
          if new_schema \<noteq> [] \<and> \<not> expand_schema
          then (Inl (ValueError (FieldsDoNotExist (doc_name (cls st)) (map fst new_schema))), st)
          else if new_schema = [] then (Inr False, st)
          else (case for_each (\<lambda>pf. add_field_schema en (fst pf) (snd pf)) new_schema st of
                  (Some e, st') \<Rightarrow> (Inl e, st')
                | (None, st') \<Rightarrow> (Inr True, save st')))"

subsection \<open>The update extractor\<close>

text \<open>
  The values a document holds, as far as \<^verbatim>\<open>_parse_id_and_array_filter\<close> walks them:
  \<open>VDoc\<close> is a document or an embedded document with its fields (\<^verbatim>\<open>_id\<close> among them),
  \<open>VList\<close> a list.
\<close>

datatype pyval =
    VNone
  | VBool bool
  | VInt int
  | VStr string
  | VObjectId string
  | VList "pyval list"
  | VDoc "(string \<times> pyval) list"

text \<open>Python indexing of a sequence: a negative index counts from the end.\<close>

definition py_index :: "'a list \<Rightarrow> int \<Rightarrow> error + 'a" where
  "py_index xs i =
     (let n = int (length xs); j = (if i < 0 then n + i else i)
      in if 0 \<le> j \<and> j < n then Inr (xs ! nat j) else Inl IndexError)"

text \<open>\<^verbatim>\<open>el[field_name]\<close> with a string, \<^verbatim>\<open>el[idx]\<close> with an integer, and \<^verbatim>\<open>el._id\<close>.\<close>

definition getitem_str :: "pyval \<Rightarrow> string \<Rightarrow> error + pyval" where
  "getitem_str el field_name =
     (case el of
        VDoc fs \<Rightarrow> (case map_of fs field_name of None \<Rightarrow> Inl (KeyError field_name) | Some v \<Rightarrow> Inr v)
      | _ \<Rightarrow> Inl (TypeError ''not subscriptable by a string''))"

definition getitem_int :: "pyval \<Rightarrow> int \<Rightarrow> error + pyval" where
  "getitem_int el idx =
     (case el of
        VList xs \<Rightarrow> py_index xs idx
      | VStr cs \<Rightarrow> (case py_index cs idx of Inl e \<Rightarrow> Inl e | Inr c \<Rightarrow> Inr (VStr [c]))
      | VDoc fs \<Rightarrow> Inl (KeyErrorIndex idx)
      | _ \<Rightarrow> Inl (TypeError ''not subscriptable''))"

definition get_id :: "pyval \<Rightarrow> error + pyval" where
  "get_id el =
     (case el of
        VDoc fs \<Rightarrow> (case map_of fs ''_id'' of
                     None \<Rightarrow> Inl (AttributeError (NoAttribute ''_id''))
                   | Some v \<Rightarrow> Inr v)
      | _ \<Rightarrow> Inl (AttributeError (NoAttribute ''_id'')))"

text \<open>
  \<^verbatim>\<open>int(s)\<close> on a string: surrounding whitespace is dropped, then an optional sign and
  decimal digits, where single underscores may separate digits. A \<open>char\<close> is a code
  point below 256; there the whitespace of Python is the ASCII whitespace, the separators
  \<open>0x1C\<close> to \<open>0x1F\<close>, the next-line control \<open>0x85\<close> and the no-break space \<open>0xA0\<close>,
  and the decimal digits are \<open>0\<close> to \<open>9\<close>.
\<close>

definition is_space :: "char \<Rightarrow> bool" where
  "is_space c \<longleftrightarrow> c \<in> set [CHR '' '', CHR 0x09, CHR 0x0A, CHR 0x0B, CHR 0x0C, CHR 0x0D,
                             CHR 0x1C, CHR 0x1D, CHR 0x1E, CHR 0x1F, CHR 0x85, CHR 0xA0]"

definition digit_of :: "char \<Rightarrow> nat option" where
  "digit_of c =
     (if c = CHR ''0'' then Some 0 else if c = CHR ''1'' then Some 1
      else if c = CHR ''2'' then Some 2 else if c = CHR ''3'' then Some 3
      else if c = CHR ''4'' then Some 4 else if c = CHR ''5'' then Some 5
      else if c = CHR ''6'' then Some 6 else if c = CHR ''7'' then Some 7
      else if c = CHR ''8'' then Some 8 else if c = CHR ''9'' then Some 9
      else None)"

fun parse_digits :: "string \<Rightarrow> nat \<Rightarrow> bool \<Rightarrow> nat option" where
  "parse_digits [] acc after_digit = (if after_digit then Some acc else None)"
| "parse_digits (c # cs) acc after_digit =
     (case digit_of c of
        Some d \<Rightarrow> parse_digits cs (10 * acc + d) True
      | None \<Rightarrow> if c = CHR ''_'' \<and> after_digit then parse_digits cs acc False else None)"

definition py_int :: "string \<Rightarrow> error + int" where
  "py_int s =
     (let t = rev (dropWhile is_space (rev (dropWhile is_space s)));
          r = (case t of
                 [] \<Rightarrow> None
               | c # cs \<Rightarrow>
                   if c = CHR ''-'' then map_option (\<lambda>n. - int n) (parse_digits cs 0 False)
                   else if c = CHR ''+'' then map_option int (parse_digits cs 0 False)
                   else map_option int (parse_digits t 0 False))
      in case r of None \<Rightarrow> Inl (ValueError (InvalidLiteral s)) | Some i \<Rightarrow> Inr i)"

text \<open>
  \<^verbatim>\<open>k.startswith(ff)\<close>, \<^verbatim>\<open>k[len(ff):].lstrip(".")\<close> and \<^verbatim>\<open>".".join(xs)\<close>.
\<close>

definition startswith :: "string \<Rightarrow> string \<Rightarrow> bool" where
  "startswith k ff \<longleftrightarrow> take (length ff) k = ff"

definition tail_of :: "string \<Rightarrow> string \<Rightarrow> string" where
  "tail_of k ff = dropWhile (\<lambda>c. c = CHR ''.'') (drop (length ff) k)"

fun join_dot :: "string list \<Rightarrow> string" where
  "join_dot [] = []"
| "join_dot [x] = x"
| "join_dot (x # y # xs) = x @ ''.'' @ join_dot (y # xs)"

text \<open>The walk \<^verbatim>\<open>for field_name in filtered_field.split("."): el = el[field_name]\<close>.\<close>

fun walk_fields :: "pyval \<Rightarrow> string list \<Rightarrow> error + pyval" where
  "walk_fields el [] = Inr el"
| "walk_fields el (field_name # rest) =
     (case getitem_str el field_name of Inl e \<Rightarrow> Inl e | Inr el' \<Rightarrow> walk_fields el' rest)"

text \<open>
  \<^verbatim>\<open>_parse_id_and_array_filter(list_element_field, filtered_field)\<close> on the document
  \<open>self\<close>: the identifier of the addressed element and the array filter.
\<close>

definition parse_id_and_array_filter :: "pyval \<Rightarrow> string \<Rightarrow> string \<Rightarrow> error + (pyval \<times> string)" where
  "parse_id_and_array_filter self list_element_field filtered_field =
     (case walk_fields self (split_dot filtered_field) of
        Inl e \<Rightarrow> Inl e
      | Inr el \<Rightarrow>
          (case split_dot (tail_of list_element_field filtered_field) of
             [] \<Rightarrow> Inl IndexError
           | first # el_fields \<Rightarrow>
               (case py_int first of
                  Inl e \<Rightarrow> Inl e
                | Inr idx \<Rightarrow>
                    (case getitem_int el idx of
                       Inl e \<Rightarrow> Inl e
                     | Inr el' \<Rightarrow>
                         (case get_id el' of
                            Inl e \<Rightarrow> Inl e
                          | Inr element_id \<Rightarrow>
                              Inr (element_id,
                                   join_dot ([filtered_field, ''$[element]''] @ el_fields)))))))"

text \<open>
  The check for illegal modifications: a key that starts with a filtered field and has
  no dot after the leading dots of the remainder.
\<close>

definition illegal_key :: "string list \<Rightarrow> string \<Rightarrow> bool" where
  "illegal_key filtered_fields k \<longleftrightarrow>
     list_ex (\<lambda>ff. startswith k ff \<and> CHR ''.'' \<notin> set (tail_of k ff)) filtered_fields"

text \<open>
  An update document is a dict from operators to dicts from paths to values. An extra
  update is a document \<^verbatim>\<open>{"$set": {el_filter: v}}\<close> with the identifier of the element.
\<close>

type_synonym update_doc = "(string \<times> (string \<times> pyval) list) list"

text \<open>
  The loop over \<^verbatim>\<open>update_doc["$set"].items()\<close>: the extra updates and \<^verbatim>\<open>del_keys\<close>.
  \<^verbatim>\<open>if filtered_field:\<close> also passes over a filtered field that is the empty string.
\<close>

fun extract_loop ::
  "pyval \<Rightarrow> string list \<Rightarrow> (string \<times> pyval) list \<Rightarrow> error + ((update_doc \<times> pyval) list \<times> string list)" where
  "extract_loop self filtered_fields [] = Inr ([], [])"
| "extract_loop self filtered_fields (kv # d) =
     (case find (\<lambda>ff. startswith (fst kv) ff) filtered_fields of
        None \<Rightarrow> extract_loop self filtered_fields d
      | Some filtered_field \<Rightarrow>
          if filtered_field = [] then extract_loop self filtered_fields d
          else (case parse_id_and_array_filter self (fst kv) filtered_field of
                  Inl e \<Rightarrow> Inl e
                | Inr r \<Rightarrow>
                    (case extract_loop self filtered_fields d of
                       Inl e \<Rightarrow> Inl e
                     | Inr acc \<Rightarrow>
                         Inr (([(''$set'', [(snd r, snd kv)])], fst r) # fst acc,
                              fst kv # snd acc))))"

text \<open>
  \<^verbatim>\<open>_extract_extra_updates(update_doc, filtered_fields)\<close> on the document \<open>self\<close>: the
  extra updates and the update document as it is left. \<^verbatim>\<open>filtered_fields\<close> may be
  \<^verbatim>\<open>None\<close>; \<^verbatim>\<open>None\<close> and the empty list are both false. The keys of a dict are distinct,
  so \<^verbatim>\<open>del d[k]\<close> for the collected keys is a filter.
\<close>

definition extract_extra_updates ::
  "pyval \<Rightarrow> update_doc \<Rightarrow> string list option \<Rightarrow> error + ((update_doc \<times> pyval) list \<times> update_doc)" where
  "extract_extra_updates self update_doc filtered_fields =
     (case filtered_fields of
        None \<Rightarrow> Inr ([], update_doc)
      | Some ffs \<Rightarrow>
          if ffs = [] then Inr ([], update_doc)
          else (case find (illegal_key ffs) (concat (map (\<lambda>od. map fst (snd od)) update_doc)) of
                  Some k \<Rightarrow> Inl (ValueError (ModifyingRoot k))
                | None \<Rightarrow>
                    (case map_of update_doc ''$set'' of
                       None \<Rightarrow> Inr ([], update_doc)
                     | Some d \<Rightarrow>
                         (case extract_loop self ffs d of
                            Inl e \<Rightarrow> Inl e
                          | Inr r \<Rightarrow>
                              (let d' = filter (\<lambda>kv. fst kv \<notin> set (snd r)) d
                               in Inr (fst r,
                                       if d' = []
                                       then filter (\<lambda>od. fst od \<noteq> ''$set'') update_doc
                                       else map (\<lambda>od. if fst od = ''$set'' then (fst od, d') else od)
                                              update_doc))))))"

subsection \<open>Compositions and fixtures used by the properties\<close>


text \<open>
  The registry invariant: the keys of \<^verbatim>\<open>_fields\<close> are the names of
  \<^verbatim>\<open>_fields_ordered\<close>, and no name is listed twice.
\<close>

definition registry_inv :: "doc_class \<Rightarrow> bool" where
  "registry_inv c \<longleftrightarrow>
     set (cls_fields_ordered c) = dom (cls_fields c) \<and> distinct (cls_fields_ordered c)"

text \<open>
  Sequences of registry operations. An operation that raises (\<^verbatim>\<open>KeyError\<close> on an
  unknown name) leaves the registry as it was, and the sequence goes on.
\<close>

datatype reg_op = Declare field | RenameField string string | DeleteField string

definition apply_reg_op :: "reg_op \<Rightarrow> doc_class \<Rightarrow> doc_class" where
  "apply_reg_op op c =
     (case op of
        Declare f \<Rightarrow> declare_field f c
      | RenameField a b \<Rightarrow> (case rename_field_registry a b c of Inl e \<Rightarrow> c | Inr c' \<Rightarrow> c')
      | DeleteField a \<Rightarrow> (case delete_field_registry a c of Inl e \<Rightarrow> c | Inr c' \<Rightarrow> c'))"

text \<open>
  What the callers of \<^verbatim>\<open>_rename_field_schema\<close> check before they call it: the new name
  is not a key of the registry (or is the old name itself).
\<close>

definition op_ok :: "reg_op \<Rightarrow> doc_class \<Rightarrow> bool" where
  "op_ok op c = (case op of RenameField a b \<Rightarrow> b = a \<or> cls_fields c b = None | _ \<Rightarrow> True)"

fun run_reg_ops :: "reg_op list \<Rightarrow> doc_class \<Rightarrow> doc_class" where
  "run_reg_ops [] c = c"
| "run_reg_ops (op # ops) c = run_reg_ops ops (apply_reg_op op c)"

fun ops_ok :: "reg_op list \<Rightarrow> doc_class \<Rightarrow> bool" where
  "ops_ok [] c = True"
| "ops_ok (op # ops) c = (op_ok op c \<and> ops_ok ops (apply_reg_op op c))"

text \<open>Concrete classes, fields, documents and states for the closed examples.\<close>

definition empty_class :: doc_class where
  "empty_class = \<lparr>is_frames_doc = False, cls_fields = Map.empty, cls_fields_ordered = [],
     base_fields_ordered = []\<rparr>"

definition scalar_field :: "string \<Rightarrow> string option \<Rightarrow> field" where
  "scalar_field n d = Field n d False True (ScalarField ''StringField'') None None []"

definition empty_doc :: dataset_document where
  "empty_doc = \<lparr>media_type = ''image'', group_field = None, sample_fields = [],
     frame_fields = [], app_config = []\<rparr>"

definition state_of :: "doc_class \<Rightarrow> dataset_document \<Rightarrow> state" where
  "state_of c d = \<lparr>cls = c, dataset_doc = d, saved_doc = d, db = [], warnings = []\<rparr>"

text \<open>
  The first error in list order that a check \<open>v\<close> finds, if any: what a validation
  loop that stops at the first violation raises.
\<close>

fun first_error :: "('a \<Rightarrow> error option) \<Rightarrow> 'a list \<Rightarrow> error option" where
  "first_error v [] = None"
| "first_error v (x # xs) = (case v x of Some e \<Rightarrow> Some e | None \<Rightarrow> first_error v xs)"

text \<open>
  The outcome of the per-pair checks of \<^verbatim>\<open>_rename_fields\<close> and of \<^verbatim>\<open>_clone_fields\<close>
  for one pair, evaluated in the state in which the batch starts.
\<close>

definition rename_violation :: "env \<Rightarrow> state \<Rightarrow> string \<times> string \<Rightarrow> error option" where
  "rename_violation en st p =
     fst (rename_check en (get_default_fields (cls st) None) (media_type (dataset_doc st)) p st)"

definition clone_violation :: "env \<Rightarrow> state \<Rightarrow> string \<times> string \<Rightarrow> error option" where
  "clone_violation en st p = fst (clone_check en (media_type (dataset_doc st)) p st)"

text \<open>
  Two states that agree on the class, the storage, the persisted dataset document, the
  warnings, and the dataset document in memory but for its \<^verbatim>\<open>group_field\<close>.
\<close>

definition untouched :: "state \<Rightarrow> state \<Rightarrow> bool" where
  "untouched st st' \<longleftrightarrow>
     cls st' = cls st \<and> db st' = db st \<and> saved_doc st' = saved_doc st \<and>
     warnings st' = warnings st \<and>
     media_type (dataset_doc st') = media_type (dataset_doc st) \<and>
     sample_fields (dataset_doc st') = sample_fields (dataset_doc st) \<and>
     frame_fields (dataset_doc st') = frame_fields (dataset_doc st) \<and>
     app_config (dataset_doc st') = app_config (dataset_doc st)"

text \<open>
  The requested names that pass the checks of \<^verbatim>\<open>_delete_fields\<close>: not a default field,
  and registered.
\<close>

definition deletable :: "state \<Rightarrow> string list \<Rightarrow> string list" where
  "deletable st field_names =
     filter (\<lambda>f. f \<notin> get_default_fields (cls st) (Some (dataset_doc st)) \<and> cls_fields (cls st) f \<noteq> None)
       field_names"

text \<open>
  Concrete collaborators, and a sample class with the default fields \<open>id\<close> and
  \<open>filepath\<close> and the declared fields \<open>a\<close> and \<open>b\<close>.
\<close>

definition env0 :: env where
  "env0 = \<lparr>validate_field_name = (\<lambda>n mt fr. if n = [] then Some (ValueError (External ''empty field name'')) else None),
            validate_fields_match = (\<lambda>p f g. if ftype f = ftype g then None
                                       else Some (ValueError (External ''field types differ''))),
            merge_fields = (\<lambda>existing p f v r. Inr None),
            declare_embedded = (\<lambda>d f. set_fields (dict_set (name f) f (field.fields d)) d)\<rparr>"

definition sample_class :: doc_class where
  "sample_class =
     declare_field (scalar_field ''b'' (Some ''b''))
       (declare_field (scalar_field ''a'' (Some ''a''))
          (declare_field (scalar_field ''filepath'' (Some ''filepath''))
             (declare_field (Field ''id'' (Some ''_id'') True False ObjectIdField None None [])
                (empty_class\<lparr>base_fields_ordered := [''id'', ''filepath'']\<rparr>))))"

definition sample_state :: state where
  "sample_state = state_of sample_class empty_doc"

text \<open>A dataset document with the field documents of \<open>a\<close> and \<open>b\<close>, and its state.\<close>

definition sample_doc :: dataset_document where
  "sample_doc = empty_doc\<lparr>sample_fields :=
     [from_field (scalar_field ''a'' (Some ''a'')), from_field (scalar_field ''b'' (Some ''b''))]\<rparr>"

definition sample_state_docs :: state where
  "sample_state_docs = state_of sample_class sample_doc"

text \<open>
  A group field descriptor, an identifier field descriptor, and a grouped dataset whose
  group field is \<open>g\<close>.
\<close>

definition group_desc :: "string \<Rightarrow> field" where
  "group_desc n = Field n (Some n) False True EmbeddedDocumentField None (Some Group) []"

definition object_id_desc :: "string \<Rightarrow> field" where
  "object_id_desc n = Field n (Some n) False True ObjectIdField None None []"

definition grouped_state :: state where
  "grouped_state =
     state_of (declare_field (group_desc ''g'') sample_class)
       (empty_doc\<lparr>media_type := GROUP, group_field := Some ''g''\<rparr>)"

text \<open>
  An embedded document field, and the grouped dataset with such a field \<open>emb\<close>.
\<close>

definition embedded_desc :: "string \<Rightarrow> field" where
  "embedded_desc n =
     Field n (Some n) False True EmbeddedDocumentField None (Some (EmbeddedDoc ''Meta'')) []"

definition grouped_nested_state :: state where
  "grouped_nested_state =
     state_of (declare_field (embedded_desc ''emb'') (declare_field (group_desc ''g'') sample_class))
       (empty_doc\<lparr>media_type := GROUP, group_field := Some ''g''\<rparr>)"

text \<open>
  The paths of a schema that \<^verbatim>\<open>_merge_field\<close> reports as new, in the order of the schema.
\<close>

definition new_paths :: "env \<Rightarrow> bool \<Rightarrow> bool \<Rightarrow> state \<Rightarrow> (string \<times> field) list \<Rightarrow> string list" where
  "new_paths en validate recursive st schema =
     concat (map (\<lambda>pf. case merge_field en (fst pf) (snd pf) validate recursive st of
                          Inr (Some new_fields) \<Rightarrow> map fst new_fields
                        | _ \<Rightarrow> []) schema)"

text \<open>A document whose \<open>dets.detections\<close> holds two elements with identifiers.\<close>

definition sample_document :: pyval where
  "sample_document =
     VDoc [(''filepath'', VStr ''img.png''),
           (''dets'', VDoc [(''detections'',
              VList [VDoc [(''_id'', VObjectId ''id0''), (''label'', VStr ''cat'')],
                     VDoc [(''_id'', VObjectId ''id1''), (''label'', VStr ''dog'')]])])]"

section \<open>Properties\<close>

subsection \<open>Validation comes before mutation\<close>

lemma untouched_refl: "untouched st st"
  by (simp add: untouched_def)

lemma untouched_trans: "untouched st st1 \<Longrightarrow> untouched st1 st2 \<Longrightarrow> untouched st st2"
  by (simp add: untouched_def)

lemma rename_check_untouched: "rename_check en D mt p st = (r, st') \<Longrightarrow> untouched st st'"
  by (auto simp: rename_check_def untouched_def Let_def split: if_splits option.splits)

lemma clone_check_untouched: "clone_check en mt p st = (r, st') \<Longrightarrow> st' = st"
  by (auto simp: clone_check_def Let_def split: if_splits option.splits)

lemma rename_check_error_cls:
  "cls st' = cls st \<Longrightarrow> fst (rename_check en D mt p st') = fst (rename_check en D mt p st)"
  by (auto simp: rename_check_def Let_def split: if_splits option.splits)

lemma for_each_rename_check:
  "untouched st s0 \<Longrightarrow> for_each (rename_check en D mt) ps s0 = (r, st') \<Longrightarrow>
     untouched st st' \<and> r = first_error (\<lambda>p. fst (rename_check en D mt p st)) ps"
proof (induction ps arbitrary: s0)
  case Nil
  then show ?case by simp
next
  case (Cons p ps)
  obtain r1 st1 where s: "rename_check en D mt p s0 = (r1, st1)" by (cases "rename_check en D mt p s0")
  have u1: "untouched st st1" using untouched_trans[OF Cons.prems(1) rename_check_untouched[OF s]] .
  have c: "cls s0 = cls st" using Cons.prems(1) by (simp add: untouched_def)
  have e: "fst (rename_check en D mt p st) = r1" using rename_check_error_cls[OF c, of en D mt p] s by simp
  show ?case
  proof (cases r1)
    case None
    then have "for_each (rename_check en D mt) ps st1 = (r, st')" using Cons.prems(2) s by simp
    from Cons.IH[OF u1 this] show ?thesis using e None by simp
  next
    case (Some err)
    then have "r = Some err" "st' = st1" using Cons.prems(2) s by simp_all
    then show ?thesis using u1 e Some by simp
  qed
qed

lemma for_each_clone_check:
  "for_each (clone_check en mt) ps st = (r, st') \<Longrightarrow>
     st' = st \<and> r = first_error (\<lambda>p. fst (clone_check en mt p st)) ps"
proof (induction ps)
  case Nil
  then show ?case by simp
next
  case (Cons p ps)
  obtain r1 st1 where s: "clone_check en mt p st = (r1, st1)" by (cases "clone_check en mt p st")
  then have st1: "st1 = st" by (rule clone_check_untouched)
  show ?case using Cons s st1 by (cases r1) auto
qed

lemma rename_fields_aborts:
  assumes "first_error (rename_violation en st) (zip field_names new_field_names) = Some e"
  shows "fst (rename_fields en field_names new_field_names st) = Some e \<and>
         untouched st (snd (rename_fields en field_names new_field_names st))"
proof -
  let ?D = "get_default_fields (cls st) None" and ?mt = "media_type (dataset_doc st)"
  obtain r st1 where s: "for_each (rename_check en ?D ?mt) (zip field_names new_field_names) st = (r, st1)"
    by (cases "for_each (rename_check en ?D ?mt) (zip field_names new_field_names) st")
  from for_each_rename_check[OF untouched_refl s]
  have u: "untouched st st1" and r: "r = Some e"
    using assms by (simp_all add: rename_violation_def[abs_def])
  show ?thesis using s u r by (simp add: rename_fields_def)
qed

lemma clone_fields_aborts:
  assumes "first_error (clone_violation en st) (zip field_names new_field_names) = Some e"
  shows "clone_fields en field_names new_field_names sc st = (Some e, st)"
proof -
  let ?mt = "media_type (dataset_doc st)"
  obtain r st1 where s: "for_each (clone_check en ?mt) (zip field_names new_field_names) st = (r, st1)"
    by (cases "for_each (clone_check en ?mt) (zip field_names new_field_names) st")
  from for_each_clone_check[OF s] have "st1 = st" "r = Some e"
    using assms by (simp_all add: clone_violation_def[abs_def])
  then show ?thesis using s by (simp add: clone_fields_def)
qed

lemma rename_violation_eq:
  "rename_violation en st (a, b) =
     (if a \<in> set (base_fields_ordered (cls st))
      then Some (ValueError (CannotRenameDefault (doc_name_lower (cls st)) a))
      else if cls_fields (cls st) a = None
      then Some (AttributeError (DoesNotExist (doc_name (cls st)) a))
      else if cls_fields (cls st) b \<noteq> None
      then Some (ValueError (AlreadyExists (doc_name (cls st)) b))
      else validate_field_name en b (media_type (dataset_doc st)) (is_frames_doc (cls st)))"
  by (auto simp: rename_violation_def rename_check_def get_default_fields_def Let_def split: option.splits)

lemma clone_violation_eq:
  "clone_violation en st (a, b) =
     (case cls_fields (cls st) a of
        None \<Rightarrow> Some (AttributeError (DoesNotExist (doc_name (cls st)) a))
      | Some f \<Rightarrow>
      if cls_fields (cls st) b \<noteq> None
      then Some (ValueError (AlreadyExists (doc_name (cls st)) b))
      else if is_group_field f then Some (ValueError (CannotCloneGroup a))
      else validate_field_name en b (media_type (dataset_doc st)) (is_frames_doc (cls st)))"
  by (auto simp: clone_violation_def clone_check_def Let_def split: option.splits)

subsection \<open>Deleting fields under an error level\<close>

lemma collect_del_fields_raise:
  "a \<in> set field_names \<Longrightarrow> a \<in> D \<Longrightarrow>
     \<exists>e. collect_del_fields D 0 field_names acc st = (Inl e, st)"
  by (induction field_names arbitrary: acc) (auto simp: handle_error_def)

lemma collect_del_fields_tolerant:
  "error_level \<noteq> 0 \<Longrightarrow>
     \<exists>w. collect_del_fields D error_level field_names acc st =
       (Inr (acc @ filter (\<lambda>f. f \<notin> D \<and> cls_fields (cls st) f \<noteq> None) field_names),
        st\<lparr>warnings := w\<rparr>)"
proof (induction field_names arbitrary: acc st)
  case Nil
  have "st = st\<lparr>warnings := warnings st\<rparr>" by simp
  then show ?case by (metis append_Nil2 collect_del_fields.simps(1) filter.simps(1))
next
  case (Cons f fs)
  show ?case
  proof (cases "f \<in> D \<or> cls_fields (cls st) f = None")
    case True
    obtain st1 where h: "st1 = (if error_level = 1 then st\<lparr>warnings := warnings st @
        [if f \<in> D then ValueError (CannotDeleteDefault (doc_name_lower (cls st)) f)
         else AttributeError (DoesNotExist (doc_name (cls st)) f)]\<rparr> else st)" by simp
    have step: "collect_del_fields D error_level (f # fs) acc st = collect_del_fields D error_level fs acc st1"
      using True Cons.prems h by (auto simp: handle_error_def)
    have c: "cls st1 = cls st" using h by simp
    from Cons.IH[OF Cons.prems, of acc st1] obtain w where
      "collect_del_fields D error_level fs acc st1 =
        (Inr (acc @ filter (\<lambda>f. f \<notin> D \<and> cls_fields (cls st1) f \<noteq> None) fs), st1\<lparr>warnings := w\<rparr>)"
      by blast
    moreover have "st1\<lparr>warnings := w\<rparr> = st\<lparr>warnings := w\<rparr>" using h by simp
    ultimately show ?thesis using step True c by auto
  next
    case False
    then have step: "collect_del_fields D error_level (f # fs) acc st = collect_del_fields D error_level fs (acc @ [f]) st"
      by auto
    from Cons.IH[OF Cons.prems, of "acc @ [f]" st] show ?thesis using step False by auto
  qed
qed

lemma delete_field_schema_frame:
  "delete_field_schema f st = (r, st') \<Longrightarrow>
     db st' = db st \<and> saved_doc st' = saved_doc st \<and> warnings st' = warnings st \<and>
     app_config (dataset_doc st') = app_config (dataset_doc st) \<and>
     (\<forall>a. a \<noteq> f \<longrightarrow> cls_fields (cls st') a = cls_fields (cls st) a)"
  by (auto simp: delete_field_schema_def delete_field_registry_def set_field_docs_def
      split: sum.splits option.splits if_splits)

lemma for_each_delete_frame:
  "for_each delete_field_schema fs st = (r, st') \<Longrightarrow>
     db st' = db st \<and> saved_doc st' = saved_doc st \<and> warnings st' = warnings st \<and>
     app_config (dataset_doc st') = app_config (dataset_doc st) \<and>
     (\<forall>a. a \<notin> set fs \<longrightarrow> cls_fields (cls st') a = cls_fields (cls st) a)"
proof (induction fs arbitrary: st)
  case Nil
  then show ?case by simp
next
  case (Cons f fs)
  obtain r1 st1 where s: "delete_field_schema f st = (r1, st1)" by (cases "delete_field_schema f st")
  note fr = delete_field_schema_frame[OF s]
  show ?case
  proof (cases r1)
    case None
    then have "for_each delete_field_schema fs st1 = (r, st')" using Cons.prems s by simp
    from Cons.IH[OF this] fr show ?thesis by auto
  next
    case (Some e)
    then have "st' = st1" using Cons.prems s by simp
    then show ?thesis using fr by auto
  qed
qed

lemma delete_fields_raise:
  assumes "a \<in> set field_names" "a \<in> get_default_fields (cls st) (Some (dataset_doc st))"
  shows "fst (delete_fields field_names 0 st) \<noteq> None \<and> snd (delete_fields field_names 0 st) = st"
proof -
  from collect_del_fields_raise[OF assms] obtain e where
    "collect_del_fields (get_default_fields (cls st) (Some (dataset_doc st))) 0 field_names [] st = (Inl e, st)"
    by blast
  then show ?thesis by (simp add: delete_fields_def)
qed

lemma delete_fields_tolerant:
  assumes "error_level \<noteq> 0"
  shows "db (snd (delete_fields field_names error_level st)) =
           db st @ (if deletable st field_names = [] then []
                    else [Unset (handle_db_fields (cls st) (deletable st field_names))]) \<and>
         (\<forall>a. a \<notin> set (deletable st field_names) \<longrightarrow>
            cls_fields (cls (snd (delete_fields field_names error_level st))) a = cls_fields (cls st) a)"
proof -
  let ?D = "get_default_fields (cls st) (Some (dataset_doc st))"
  from collect_del_fields_tolerant[OF assms, of ?D field_names "[]" st] obtain w where
    c: "collect_del_fields ?D error_level field_names [] st = (Inr (deletable st field_names), st\<lparr>warnings := w\<rparr>)"
    by (auto simp: deletable_def)
  let ?del = "deletable st field_names"
  let ?st2 = "delete_fields_simple ?del (st\<lparr>warnings := w\<rparr>)"
  show ?thesis
  proof (cases "?del = []")
    case True
    then show ?thesis using c by (simp add: delete_fields_def)
  next
    case False
    obtain r st3 where f: "for_each delete_field_schema ?del ?st2 = (r, st3)"
      by (cases "for_each delete_field_schema ?del ?st2")
    note fr = for_each_delete_frame[OF f]
    have d2: "db ?st2 = db st @ [Unset (handle_db_fields (cls st) ?del)]" "cls ?st2 = cls st"
      using False by (simp_all add: delete_fields_simple_def)
    show ?thesis using c False f fr d2
      by (cases r) (auto simp: delete_fields_def save_def)
  qed
qed

lemmas fixture_defs = sample_state_def state_of_def sample_class_def empty_class_def empty_doc_def
  scalar_field_def env0_def declare_field_def

lemma first_error_split:
  "v p = Some e \<Longrightarrow>
     first_error v (ps1 @ p # ps2) \<noteq> None \<and>
     (first_error v ps1 = None \<longrightarrow> first_error v (ps1 @ p # ps2) = Some e)"
  by (induction ps1) (auto split: option.splits)

text \<open>
  Claim C1. When some pair of a batch rename violates a check (the old name is a default
  field, the old name is not registered, the new name is registered, the new name fails
  the naming validation), \<^verbatim>\<open>_rename_fields\<close> raises the error of the first violation in
  pair order, which names the offending field, and the class (the registry), the storage
  and the persisted dataset document are as before, as are the field documents and the app
  config of the dataset document in memory: no storage or registry mutation happens unless
  every pair has passed every check. The same holds for \<^verbatim>\<open>_clone_fields\<close>, which
  leaves the whole state as it was.
\<close>

theorem batch_validation_precedes_mutation:
  "(first_error (rename_violation en st) (zip field_names new_field_names) \<noteq> None \<longrightarrow>
      fst (rename_fields en field_names new_field_names st)
        = first_error (rename_violation en st) (zip field_names new_field_names) \<and>
      cls (snd (rename_fields en field_names new_field_names st)) = cls st \<and>
      db (snd (rename_fields en field_names new_field_names st)) = db st \<and>
      saved_doc (snd (rename_fields en field_names new_field_names st)) = saved_doc st \<and>
      sample_fields (dataset_doc (snd (rename_fields en field_names new_field_names st)))
        = sample_fields (dataset_doc st) \<and>
      frame_fields (dataset_doc (snd (rename_fields en field_names new_field_names st)))
        = frame_fields (dataset_doc st) \<and>
      app_config (dataset_doc (snd (rename_fields en field_names new_field_names st)))
        = app_config (dataset_doc st)) \<and>
   (first_error (clone_violation en st) (zip field_names new_field_names) \<noteq> None \<longrightarrow>
      clone_fields en field_names new_field_names sample_collection st
        = (first_error (clone_violation en st) (zip field_names new_field_names), st)) \<and>
   rename_violation en st (a, b) =
     (if a \<in> set (base_fields_ordered (cls st))
      then Some (ValueError (CannotRenameDefault (doc_name_lower (cls st)) a))
      else if cls_fields (cls st) a = None
      then Some (AttributeError (DoesNotExist (doc_name (cls st)) a))
      else if cls_fields (cls st) b \<noteq> None
      then Some (ValueError (AlreadyExists (doc_name (cls st)) b))
      else validate_field_name en b (media_type (dataset_doc st)) (is_frames_doc (cls st))) \<and>
   clone_violation en st (a, b) =
     (case cls_fields (cls st) a of
        None \<Rightarrow> Some (AttributeError (DoesNotExist (doc_name (cls st)) a))
      | Some f \<Rightarrow>
          if cls_fields (cls st) b \<noteq> None
          then Some (ValueError (AlreadyExists (doc_name (cls st)) b))
          else if is_group_field f then Some (ValueError (CannotCloneGroup a))
          else validate_field_name en b (media_type (dataset_doc st)) (is_frames_doc (cls st)))"
proof -
  have r: "first_error (rename_violation en st) (zip field_names new_field_names) \<noteq> None \<longrightarrow>
      fst (rename_fields en field_names new_field_names st)
        = first_error (rename_violation en st) (zip field_names new_field_names) \<and>
      untouched st (snd (rename_fields en field_names new_field_names st))"
    using rename_fields_aborts by fastforce
  have c: "first_error (clone_violation en st) (zip field_names new_field_names) \<noteq> None \<longrightarrow>
      clone_fields en field_names new_field_names sample_collection st
        = (first_error (clone_violation en st) (zip field_names new_field_names), st)"
    using clone_fields_aborts by fastforce
  show ?thesis
    using r c rename_violation_eq[of en st a b] clone_violation_eq[of en st a b]
    by (simp add: untouched_def)
qed

text \<open>
  The theorem at a batch whose second pair renames the default field \<open>filepath\<close>, and at
  a clone batch whose second pair names the unregistered field \<open>zz\<close>.
\<close>

theorem batch_validation_precedes_mutation_witness:
  "first_error (rename_violation env0 sample_state) (zip [''a'', ''filepath'', ''zz''] [''c'', ''d'', ''e''])
     = Some (ValueError (CannotRenameDefault ''sample'' ''filepath'')) \<and>
   fst (rename_fields env0 [''a'', ''filepath'', ''zz''] [''c'', ''d'', ''e''] sample_state)
     = Some (ValueError (CannotRenameDefault ''sample'' ''filepath'')) \<and>
   cls (snd (rename_fields env0 [''a'', ''filepath'', ''zz''] [''c'', ''d'', ''e''] sample_state)) = cls sample_state \<and>
   db (snd (rename_fields env0 [''a'', ''filepath'', ''zz''] [''c'', ''d'', ''e''] sample_state)) = [] \<and>
   saved_doc (snd (rename_fields env0 [''a'', ''filepath'', ''zz''] [''c'', ''d'', ''e''] sample_state)) = empty_doc \<and>
   first_error (clone_violation env0 sample_state) (zip [''a'', ''zz''] [''c'', ''d''])
     = Some (AttributeError (DoesNotExist ''Sample'' ''zz'')) \<and>
   clone_fields env0 [''a'', ''zz''] [''c'', ''d''] None sample_state
     = (Some (AttributeError (DoesNotExist ''Sample'' ''zz'')), sample_state)"
proof -
  have h1: "first_error (rename_violation env0 sample_state) (zip [''a'', ''filepath'', ''zz''] [''c'', ''d'', ''e''])
     = Some (ValueError (CannotRenameDefault ''sample'' ''filepath''))"
    by (simp add: rename_violation_def rename_check_def get_default_fields_def doc_name_lower_def
        doc_name_def Let_def fixture_defs)
  have h2: "first_error (clone_violation env0 sample_state) (zip [''a'', ''zz''] [''c'', ''d''])
     = Some (AttributeError (DoesNotExist ''Sample'' ''zz''))"
    by (simp add: clone_violation_def clone_check_def is_group_field_def doc_name_def Let_def fixture_defs)
  have h3: "db sample_state = []" "saved_doc sample_state = empty_doc" by (simp_all add: sample_state_def state_of_def)
  show ?thesis
    using batch_validation_precedes_mutation[of env0 sample_state "[''a'', ''filepath'', ''zz'']" "[''c'', ''d'', ''e'']"]
      batch_validation_precedes_mutation[of env0 sample_state "[''a'', ''zz'']" "[''c'', ''d'']" None]
      h1 h2 h3
    by simp
qed

subsection \<open>Default fields\<close>

text \<open>
  Claim C6, as amended. A batch rename with a default field among its pairs raises,
  whatever the arguments (\<^verbatim>\<open>_rename_fields\<close> has no error level): it raises the error
  of the first violated check in pair order, the pair of the default field violates the
  immutable-field check, and so the error is the immutable-field error of that pair when
  no earlier pair violates a check. The class, the storage and the persisted dataset
  document are as before, and so is the dataset document in memory but for its group
  field. A delete request that names a default field raises at error level 0 and changes
  nothing; at error levels 1 and 2 the field is skipped and stays registered, and the
  storage receives one unset of exactly the deletable requested fields.
\<close>

theorem default_fields_immutable:
  "((a, b) \<in> set (zip field_names new_field_names) \<and> a \<in> set (base_fields_ordered (cls st)) \<longrightarrow>
      fst (rename_fields en field_names new_field_names st) \<noteq> None \<and>
      fst (rename_fields en field_names new_field_names st)
        = first_error (rename_violation en st) (zip field_names new_field_names) \<and>
      rename_violation en st (a, b)
        = Some (ValueError (CannotRenameDefault (doc_name_lower (cls st)) a)) \<and>
      (zip field_names new_field_names = ps1 @ (a, b) # ps2 \<and>
       first_error (rename_violation en st) ps1 = None \<longrightarrow>
         fst (rename_fields en field_names new_field_names st)
           = Some (ValueError (CannotRenameDefault (doc_name_lower (cls st)) a))) \<and>
      cls (snd (rename_fields en field_names new_field_names st)) = cls st \<and>
      db (snd (rename_fields en field_names new_field_names st)) = db st \<and>
      saved_doc (snd (rename_fields en field_names new_field_names st)) = saved_doc st \<and>
      media_type (dataset_doc (snd (rename_fields en field_names new_field_names st)))
        = media_type (dataset_doc st) \<and>
      sample_fields (dataset_doc (snd (rename_fields en field_names new_field_names st)))
        = sample_fields (dataset_doc st) \<and>
      frame_fields (dataset_doc (snd (rename_fields en field_names new_field_names st)))
        = frame_fields (dataset_doc st) \<and>
      app_config (dataset_doc (snd (rename_fields en field_names new_field_names st)))
        = app_config (dataset_doc st)) \<and>
   (d \<in> set del_names \<and> d \<in> get_default_fields (cls st) (Some (dataset_doc st)) \<longrightarrow>
      fst (delete_fields del_names 0 st) \<noteq> None \<and>
      snd (delete_fields del_names 0 st) = st \<and>
      (error_level = 1 \<or> error_level = 2 \<longrightarrow>
         d \<notin> set (deletable st del_names) \<and>
         cls_fields (cls (snd (delete_fields del_names error_level st))) d = cls_fields (cls st) d \<and>
         db (snd (delete_fields del_names error_level st)) =
           db st @ (if deletable st del_names = [] then []
                    else [Unset (handle_db_fields (cls st) (deletable st del_names))])))"
proof -
  let ?R = "rename_fields en field_names new_field_names st"
  let ?ps = "zip field_names new_field_names"
  have r: "fst ?R \<noteq> None \<and>
      fst ?R = first_error (rename_violation en st) ?ps \<and>
      rename_violation en st (a, b)
        = Some (ValueError (CannotRenameDefault (doc_name_lower (cls st)) a)) \<and>
      (?ps = ps1 @ (a, b) # ps2 \<and> first_error (rename_violation en st) ps1 = None \<longrightarrow>
         fst ?R = Some (ValueError (CannotRenameDefault (doc_name_lower (cls st)) a))) \<and>
      untouched st (snd ?R)"
    if m: "(a, b) \<in> set ?ps" and a: "a \<in> set (base_fields_ordered (cls st))"
  proof -
    have v: "rename_violation en st (a, b) = Some (ValueError (CannotRenameDefault (doc_name_lower (cls st)) a))"
      using a by (simp add: rename_violation_eq)
    from m obtain qs1 qs2 where z: "?ps = qs1 @ (a, b) # qs2"
      by (auto dest: split_list)
    from first_error_split[of "rename_violation en st" "(a, b)" _ qs1 qs2, OF v]
    obtain e where e: "first_error (rename_violation en st) ?ps = Some e"
      using z by auto
    note ab = rename_fields_aborts[OF e]
    have w: "?ps = ps1 @ (a, b) # ps2 \<and> first_error (rename_violation en st) ps1 = None \<longrightarrow>
         fst ?R = Some (ValueError (CannotRenameDefault (doc_name_lower (cls st)) a))"
      using first_error_split[of "rename_violation en st" "(a, b)" _ ps1 ps2, OF v] ab e by auto
    show ?thesis using ab e v w by simp
  qed
  have dl: "fst (delete_fields del_names 0 st) \<noteq> None \<and>
      snd (delete_fields del_names 0 st) = st \<and>
      (error_level = 1 \<or> error_level = 2 \<longrightarrow>
         d \<notin> set (deletable st del_names) \<and>
         cls_fields (cls (snd (delete_fields del_names error_level st))) d = cls_fields (cls st) d \<and>
         db (snd (delete_fields del_names error_level st)) =
           db st @ (if deletable st del_names = [] then []
                    else [Unset (handle_db_fields (cls st) (deletable st del_names))]))"
    if m: "d \<in> set del_names" and dd: "d \<in> get_default_fields (cls st) (Some (dataset_doc st))"
  proof -
    have nd: "d \<notin> set (deletable st del_names)" using dd by (simp add: deletable_def)
    have t: "error_level = 1 \<or> error_level = 2 \<Longrightarrow>
         cls_fields (cls (snd (delete_fields del_names error_level st))) d = cls_fields (cls st) d \<and>
         db (snd (delete_fields del_names error_level st)) =
           db st @ (if deletable st del_names = [] then []
                    else [Unset (handle_db_fields (cls st) (deletable st del_names))])"
      using delete_fields_tolerant[of error_level del_names st] nd by auto
    show ?thesis using delete_fields_raise[OF m dd] nd t by blast
  qed
  show ?thesis using r dl unfolding untouched_def by blast
qed

text \<open>
  The theorem at the rename of \<open>a\<close> and the default field \<open>filepath\<close>, and at the deletion
  of the same two names: level 0 raises, level 2 unsets \<open>a\<close> alone.
\<close>

theorem default_fields_immutable_witness:
  "(''filepath'', ''d'') \<in> set (zip [''a'', ''filepath''] [''c'', ''d'']) \<and>
   zip [''a'', ''filepath''] [''c'', ''d''] = [(''a'', ''c'')] @ (''filepath'', ''d'') # [] \<and>
   ''filepath'' \<in> set (base_fields_ordered (cls sample_state)) \<and>
   first_error (rename_violation env0 sample_state) [(''a'', ''c'')] = None \<and>
   fst (rename_fields env0 [''a'', ''filepath''] [''c'', ''d''] sample_state)
     = Some (ValueError (CannotRenameDefault ''sample'' ''filepath'')) \<and>
   db (snd (rename_fields env0 [''a'', ''filepath''] [''c'', ''d''] sample_state)) = [] \<and>
   ''filepath'' \<in> set [''a'', ''filepath''] \<and>
   ''filepath'' \<in> get_default_fields (cls sample_state) (Some (dataset_doc sample_state)) \<and>
   fst (delete_fields [''a'', ''filepath''] 0 sample_state) \<noteq> None \<and>
   snd (delete_fields [''a'', ''filepath''] 0 sample_state) = sample_state \<and>
   db (snd (delete_fields [''a'', ''filepath''] 2 sample_state)) = [Unset [''a'']] \<and>
   cls_fields (cls (snd (delete_fields [''a'', ''filepath''] 2 sample_state))) ''filepath''
     = Some (scalar_field ''filepath'' (Some ''filepath''))"
proof -
  have h0: "(''filepath'', ''d'') \<in> set (zip [''a'', ''filepath''] [''c'', ''d''])"
    by simp
  have h1: "zip [''a'', ''filepath''] [''c'', ''d''] = [(''a'', ''c'')] @ (''filepath'', ''d'') # []"
    by simp
  have h2: "''filepath'' \<in> set (base_fields_ordered (cls sample_state))"
    by (simp add: fixture_defs)
  have h3: "first_error (rename_violation env0 sample_state) [(''a'', ''c'')] = None"
    by (simp add: rename_violation_def rename_check_def get_default_fields_def is_group_field_def
        Let_def fixture_defs)
  have h4: "''filepath'' \<in> get_default_fields (cls sample_state) (Some (dataset_doc sample_state))"
    by (simp add: get_default_fields_def fixture_defs)
  have h5: "deletable sample_state [''a'', ''filepath''] = [''a'']"
    by (simp add: deletable_def get_default_fields_def GROUP_def fixture_defs)
  have h6: "handle_db_fields (cls sample_state) [''a''] = [''a'']"
    by (simp add: handle_db_fields_def handle_db_field_def fixture_defs)
  have h7: "cls_fields (cls sample_state) ''filepath'' = Some (scalar_field ''filepath'' (Some ''filepath''))"
       "db sample_state = []" "doc_name_lower (cls sample_state) = ''sample''"
    by (simp_all add: doc_name_lower_def fixture_defs)
  show ?thesis
    using default_fields_immutable[of "''filepath''" "''d''" "[''a'', ''filepath'']" "[''c'', ''d'']"
        sample_state env0 "[(''a'', ''c'')]" "[]" "''filepath''" "[''a'', ''filepath'']" 2]
      h0 h1 h2 h3 h4 h5 h6 h7
    by auto
qed

text \<open>
  Claim C6 as stated fails: a rename request that contains the default field \<open>filepath\<close>
  after an unregistered name raises the not-found error of the first pair, not the
  immutable-field error.
\<close>

theorem default_fields_immutable_counterexample:
  "''filepath'' \<in> set (base_fields_ordered (cls sample_state)) \<and>
   fst (rename_fields env0 [''nope'', ''filepath''] [''x'', ''y''] sample_state)
     = Some (AttributeError (DoesNotExist ''Sample'' ''nope''))"
  by (simp add: rename_fields_def rename_check_def get_default_fields_def doc_name_def
      Let_def fixture_defs)

text \<open>
  What the aborted batch does leave behind: the validation pass for a group field sets
  \<^verbatim>\<open>dataset_doc.group_field\<close> in memory before a later pair fails. The persisted document
  still names \<open>g\<close>.
\<close>

lemma rename_fields_group_field_in_memory:
  "fst (rename_fields env0 [''g'', ''filepath''] [''h'', ''x''] grouped_state)
     = Some (ValueError (CannotRenameDefault ''sample'' ''filepath'')) \<and>
   group_field (dataset_doc (snd (rename_fields env0 [''g'', ''filepath''] [''h'', ''x''] grouped_state)))
     = Some ''h'' \<and>
   group_field (saved_doc (snd (rename_fields env0 [''g'', ''filepath''] [''h'', ''x''] grouped_state)))
     = Some ''g''"
  by (simp add: rename_fields_def rename_check_def get_default_fields_def is_group_field_def
      doc_name_lower_def Let_def grouped_state_def group_desc_def fixture_defs)
subsection \<open>The app config and the save after a tolerant delete\<close>

lemma delete_field_schema_base:
  "delete_field_schema f st = (r, st') \<Longrightarrow>
     base_fields_ordered (cls st') = base_fields_ordered (cls st)"
  by (auto simp: delete_field_schema_def delete_field_registry_def
      split: sum.splits option.splits if_splits)

lemma for_each_delete_ok:
  "distinct fs \<Longrightarrow>
   \<forall>f \<in> set fs. cls_fields (cls st) f \<noteq> None \<and> f \<notin> set (base_fields_ordered (cls st)) \<Longrightarrow>
     fst (for_each delete_field_schema fs st) = None"
proof (induction fs arbitrary: st)
  case Nil
  then show ?case by simp
next
  case (Cons f fs)
  from Cons.prems obtain x where x: "cls_fields (cls st) f = Some x"
    and nb: "f \<notin> set (base_fields_ordered (cls st))" by auto
  obtain st1 where s: "delete_field_schema f st = (None, st1)"
    using x nb by (simp add: delete_field_schema_def delete_field_registry_def)
  from delete_field_schema_frame[OF s] delete_field_schema_base[OF s] Cons.prems
  have "\<forall>g \<in> set fs. cls_fields (cls st1) g \<noteq> None \<and> g \<notin> set (base_fields_ordered (cls st1))"
    by auto
  with Cons.IH[of st1] Cons.prems show ?case using s by simp
qed

text \<open>
  Claim C10, as amended. At error level 1 or 2, when the deletable requested names are
  pairwise distinct and not empty, \<^verbatim>\<open>_delete_fields\<close> returns normally, the app config
  receives \<^verbatim>\<open>_delete_paths\<close> with the full list of requested names, skipped ones
  included, and the dataset document is saved; when no requested name is deletable it
  returns with the class, the storage, the dataset document and its persisted copy as they
  were.
\<close>

theorem delete_fields_app_config:
  assumes "error_level = 1 \<or> error_level = 2"
  shows "(distinct (deletable st field_names) \<and> deletable st field_names \<noteq> [] \<longrightarrow>
            fst (delete_fields field_names error_level st) = None \<and>
            app_config (dataset_doc (snd (delete_fields field_names error_level st)))
              = app_config (dataset_doc st) @ [DeletePaths field_names] \<and>
            saved_doc (snd (delete_fields field_names error_level st))
              = dataset_doc (snd (delete_fields field_names error_level st))) \<and>
         (deletable st field_names = [] \<longrightarrow>
            fst (delete_fields field_names error_level st) = None \<and>
            cls (snd (delete_fields field_names error_level st)) = cls st \<and>
            db (snd (delete_fields field_names error_level st)) = db st \<and>
            dataset_doc (snd (delete_fields field_names error_level st)) = dataset_doc st \<and>
            saved_doc (snd (delete_fields field_names error_level st)) = saved_doc st)"
proof -
  let ?D = "get_default_fields (cls st) (Some (dataset_doc st))"
  let ?del = "deletable st field_names"
  from assms have nz: "error_level \<noteq> 0" by auto
  from collect_del_fields_tolerant[OF nz, of ?D field_names "[]" st] obtain w where
    c: "collect_del_fields ?D error_level field_names [] st = (Inr ?del, st\<lparr>warnings := w\<rparr>)"
    by (auto simp: deletable_def)
  let ?st2 = "delete_fields_simple ?del (st\<lparr>warnings := w\<rparr>)"
  have a: "fst (delete_fields field_names error_level st) = None \<and>
            app_config (dataset_doc (snd (delete_fields field_names error_level st)))
              = app_config (dataset_doc st) @ [DeletePaths field_names] \<and>
            saved_doc (snd (delete_fields field_names error_level st))
              = dataset_doc (snd (delete_fields field_names error_level st))"
    if d: "distinct ?del" and ne: "?del \<noteq> []"
  proof -
    have reg: "\<forall>f \<in> set ?del. cls_fields (cls ?st2) f \<noteq> None \<and>
                 f \<notin> set (base_fields_ordered (cls ?st2))"
      by (auto simp: deletable_def delete_fields_simple_def get_default_fields_def)
    obtain r st3 where f: "for_each delete_field_schema ?del ?st2 = (r, st3)"
      by (cases "for_each delete_field_schema ?del ?st2")
    have r: "r = None" using for_each_delete_ok[OF d reg] f by simp
    have ac: "app_config (dataset_doc st3) = app_config (dataset_doc st)"
      using for_each_delete_frame[OF f] by (simp add: delete_fields_simple_def)
    show ?thesis using c ne f r ac by (simp add: delete_fields_def save_def)
  qed
  have b: "deletable st field_names = [] \<Longrightarrow>
            fst (delete_fields field_names error_level st) = None \<and>
            cls (snd (delete_fields field_names error_level st)) = cls st \<and>
            db (snd (delete_fields field_names error_level st)) = db st \<and>
            dataset_doc (snd (delete_fields field_names error_level st)) = dataset_doc st \<and>
            saved_doc (snd (delete_fields field_names error_level st)) = saved_doc st"
    using c by (simp add: delete_fields_def)
  show ?thesis using a b by blast
qed

text \<open>
  The theorem at the request \<open>a\<close>, \<open>nope\<close>, \<open>filepath\<close> with error level 1, where only
  \<open>a\<close> is deletable, and at the request \<open>nope\<close>, \<open>id\<close>, where nothing is.
\<close>

theorem delete_fields_app_config_witness:
  "deletable sample_state [''a'', ''nope'', ''filepath''] = [''a''] \<and>
   fst (delete_fields [''a'', ''nope'', ''filepath''] 1 sample_state) = None \<and>
   app_config (dataset_doc (snd (delete_fields [''a'', ''nope'', ''filepath''] 1 sample_state)))
     = [DeletePaths [''a'', ''nope'', ''filepath'']] \<and>
   saved_doc (snd (delete_fields [''a'', ''nope'', ''filepath''] 1 sample_state))
     = dataset_doc (snd (delete_fields [''a'', ''nope'', ''filepath''] 1 sample_state)) \<and>
   deletable sample_state [''nope'', ''id''] = [] \<and>
   fst (delete_fields [''nope'', ''id''] 1 sample_state) = None \<and>
   cls (snd (delete_fields [''nope'', ''id''] 1 sample_state)) = cls sample_state \<and>
   db (snd (delete_fields [''nope'', ''id''] 1 sample_state)) = [] \<and>
   dataset_doc (snd (delete_fields [''nope'', ''id''] 1 sample_state)) = empty_doc \<and>
   saved_doc (snd (delete_fields [''nope'', ''id''] 1 sample_state)) = empty_doc"
proof -
  have h1: "deletable sample_state [''a'', ''nope'', ''filepath''] = [''a'']"
    by (simp add: deletable_def get_default_fields_def GROUP_def fixture_defs)
  have h2: "deletable sample_state [''nope'', ''id''] = []"
    by (simp add: deletable_def get_default_fields_def GROUP_def fixture_defs)
  have h3: "app_config (dataset_doc sample_state) = []" "db sample_state = []" "dataset_doc sample_state = empty_doc"
    "saved_doc sample_state = empty_doc"
    by (simp_all add: fixture_defs)
  have l: "(1::int) = 1 \<or> (1::int) = 2" by simp
  show ?thesis
    using delete_fields_app_config[OF l, of sample_state "[''a'', ''nope'', ''filepath'']"]
      delete_fields_app_config[OF l, of sample_state "[''nope'', ''id'']"] h1 h2 h3
    by simp
qed

text \<open>
  Claim C10 as stated fails at the request \<open>a\<close>, \<open>nope\<close>, \<open>a\<close> with error level 2:
  \<open>nope\<close> is skipped and \<open>a\<close> is deletable, the storage receives the unset of \<open>a\<close>,
  \<open>a\<close>, the registry loses \<open>a\<close>, and the second \<^verbatim>\<open>del cls._fields["a"]\<close> raises
  \<^verbatim>\<open>KeyError\<close>: the app config is not told and the dataset document is not saved.
\<close>

theorem delete_fields_repeated_name_counterexample:
  "deletable sample_state_docs [''a'', ''nope'', ''a''] = [''a'', ''a''] \<and>
   fst (delete_fields [''a'', ''nope'', ''a''] 2 sample_state_docs) = Some (KeyError ''a'') \<and>
   db (snd (delete_fields [''a'', ''nope'', ''a''] 2 sample_state_docs)) = [Unset [''a'', ''a'']] \<and>
   cls_fields (cls (snd (delete_fields [''a'', ''nope'', ''a''] 2 sample_state_docs))) ''a'' = None \<and>
   cls_fields_ordered (cls (snd (delete_fields [''a'', ''nope'', ''a''] 2 sample_state_docs)))
     = [''id'', ''filepath'', ''b''] \<and>
   app_config (dataset_doc (snd (delete_fields [''a'', ''nope'', ''a''] 2 sample_state_docs))) = [] \<and>
   map doc_field_name (sample_fields (dataset_doc (snd (delete_fields [''a'', ''nope'', ''a''] 2 sample_state_docs))))
     = [''b''] \<and>
   map doc_field_name (sample_fields (saved_doc (snd (delete_fields [''a'', ''nope'', ''a''] 2 sample_state_docs))))
     = [''a'', ''b'']"
  by (simp add: deletable_def delete_fields_def delete_fields_simple_def handle_error_def
      delete_field_schema_def delete_field_registry_def handle_db_fields_def handle_db_field_def
      get_default_fields_def GROUP_def set_field_docs_def field_docs_of_def sample_state_docs_def sample_doc_def
      fixture_defs)
subsection \<open>Group fields\<close>






text \<open>
  What the theorem leaves out: embedded paths. \<^verbatim>\<open>_merge_field\<close> compares the designated
  group field with the last chunk of the path only, and asks for the frame-level class
  only; so on the sample class whose group field is \<open>g\<close> it accepts a group-typed field
  at the embedded path \<open>emb.g\<close>, although its own message says that group fields must be
  top-level sample fields.
\<close>

lemma merge_nested_group_field:
  "group_field (dataset_doc grouped_nested_state) = Some ''g'' \<and>
   map_option ftype (cls_fields (cls grouped_nested_state) ''g'') = Some EmbeddedDocumentField \<and>
   merge_field env0 ''emb.g'' (group_desc ''g'') True True grouped_nested_state
     = Inr (Some [(''emb.g'', group_desc ''g'')])"
  by (simp add: merge_field_def is_group_field_def unwrap_list_def Let_def
      grouped_nested_state_def embedded_desc_def group_desc_def fixture_defs)
subsection \<open>Merging without expansion\<close>

lemma keys_dict_set: "fst ` set (dict_set k v d) = insert k (fst ` set d)"
  by (induction d) auto

lemma keys_dict_update: "fst ` set (dict_update d new) = fst ` set d \<union> fst ` set new"
  unfolding dict_update_def
  by (induction new arbitrary: d) (simp_all add: keys_dict_set Un_commute insert_commute)

lemma merge_loop_keys:
  "merge_loop en validate recursive st schema acc = Inr new_schema \<Longrightarrow>
     fst ` set new_schema = fst ` set acc \<union> set (new_paths en validate recursive st schema)"
proof (induction schema arbitrary: acc)
  case Nil
  then show ?case by (simp add: new_paths_def)
next
  case (Cons pf schema)
  show ?case
  proof (cases "merge_field en (fst pf) (snd pf) validate recursive st")
    case (Inl e)
    then show ?thesis using Cons.prems by simp
  next
    case (Inr res)
    show ?thesis
    proof (cases res)
      case None
      then show ?thesis using Cons Inr by (simp add: new_paths_def)
    next
      case (Some nf)
      then have "merge_loop en validate recursive st schema
                  (if nf = [] then acc else dict_update acc nf) = Inr new_schema"
        using Cons.prems Inr by simp
      from Cons.IH[OF this]
      have "fst ` set new_schema =
              fst ` set (if nf = [] then acc else dict_update acc nf) \<union>
              set (new_paths en validate recursive st schema)" .
      moreover have "fst ` set (if nf = [] then acc else dict_update acc nf) = fst ` set acc \<union> fst ` set nf"
        by (simp add: keys_dict_update)
      moreover have "new_paths en validate recursive st (pf # schema)
                       = map fst nf @ new_paths en validate recursive st schema"
        using Inr Some by (simp add: new_paths_def)
      ultimately show ?thesis by (simp add: Un_assoc)
    qed
  qed
qed

text \<open>
  Claim C5, as amended. With \<^verbatim>\<open>expand_schema=False\<close>, \<^verbatim>\<open>merge_field_schema\<close> never
  changes the state: no field is added to the registry or to the dataset document and
  nothing is saved. If some path of the input is reported as new, the call fails; and
  when no per-path check raises first, the error is the one that lists the new paths,
  all of them and no other.
\<close>

theorem merge_without_expansion:
  "snd (merge_field_schema en schema False recursive validate st) = st \<and>
   (new_paths en validate recursive st schema \<noteq> [] \<longrightarrow>
      isl (fst (merge_field_schema en schema False recursive validate st))) \<and>
   (new_paths en validate recursive st schema \<noteq> [] \<and>
    merge_loop en validate recursive st schema [] = Inr new_schema \<longrightarrow>
      fst (merge_field_schema en schema False recursive validate st)
        = Inl (ValueError (FieldsDoNotExist (doc_name (cls st)) (map fst new_schema))) \<and>
      set (map fst new_schema) = set (new_paths en validate recursive st schema))"
proof (cases "merge_loop en validate recursive st schema []")
  case (Inl e)
  then show ?thesis by (simp add: merge_field_schema_def)
next
  case (Inr ns)
  from merge_loop_keys[OF Inr]
  have k: "fst ` set ns = set (new_paths en validate recursive st schema)" by simp
  then have "new_paths en validate recursive st schema \<noteq> [] \<Longrightarrow> ns \<noteq> []" by auto
  then show ?thesis using Inr k by (auto simp: merge_field_schema_def)
qed

text \<open>
  The theorem at the schema \<open>a\<close>, \<open>new1\<close>, \<open>new2\<close> on the sample class, where \<open>a\<close> is
  registered.
\<close>

theorem merge_without_expansion_witness:
  "new_paths env0 True True sample_state
     [(''a'', scalar_field ''a'' None), (''new1'', scalar_field ''new1'' None),
      (''new2'', scalar_field ''new2'' None)] = [''new1'', ''new2''] \<and>
   map fst [(''new1'', scalar_field ''new1'' None), (''new2'', scalar_field ''new2'' None)]
     = [''new1'', ''new2''] \<and>
   merge_field_schema env0
     [(''a'', scalar_field ''a'' None), (''new1'', scalar_field ''new1'' None),
      (''new2'', scalar_field ''new2'' None)] False True True sample_state
     = (Inl (ValueError (FieldsDoNotExist ''Sample'' [''new1'', ''new2''])), sample_state)"
proof -
  let ?schema = "[(''a'', scalar_field ''a'' None), (''new1'', scalar_field ''new1'' None),
      (''new2'', scalar_field ''new2'' None)]"
  have m: "merge_field env0 ''a'' (scalar_field ''a'' None) True True sample_state = Inr None"
     "merge_field env0 ''new1'' (scalar_field ''new1'' None) True True sample_state
        = Inr (Some [(''new1'', scalar_field ''new1'' None)])"
     "merge_field env0 ''new2'' (scalar_field ''new2'' None) True True sample_state
        = Inr (Some [(''new2'', scalar_field ''new2'' None)])"
    by (simp_all add: merge_field_def is_group_field_def Let_def fixture_defs)
  have h1: "new_paths env0 True True sample_state ?schema = [''new1'', ''new2'']"
    using m by (simp add: new_paths_def)
  have h2: "merge_loop env0 True True sample_state ?schema []
     = Inr [(''new1'', scalar_field ''new1'' None), (''new2'', scalar_field ''new2'' None)]"
    using m by (simp add: dict_update_def)
  have h3: "doc_name (cls sample_state) = ''Sample''"
    by (simp add: doc_name_def fixture_defs)
  have h4: "merge_field_schema env0 ?schema False True True sample_state
     = (fst (merge_field_schema env0 ?schema False True True sample_state),
        snd (merge_field_schema env0 ?schema False True True sample_state))"
    by simp
  show ?thesis
    using merge_without_expansion[of env0 ?schema True True sample_state
        "[(''new1'', scalar_field ''new1'' None), (''new2'', scalar_field ''new2'' None)]"]
      h1 h2 h3 h4
    by simp
qed

text \<open>
  Claim C5 as stated fails: in the schema \<open>new\<close>, \<open>nope.x\<close> the path \<open>new\<close> is new, but
  the call fails with the error about the unknown root \<open>nope\<close>, which lists no new path.
\<close>

theorem merge_without_expansion_counterexample:
  "merge_field env0 ''new'' (scalar_field ''new'' None) True True sample_state
     = Inr (Some [(''new'', scalar_field ''new'' None)]) \<and>
   fst (merge_field_schema env0
     [(''new'', scalar_field ''new'' None), (''nope.x'', scalar_field ''x'' None)]
     False True True sample_state)
     = Inl (ValueError (CannotInferType ''Sample'' ''nope'' ''nope.x''))"
  by (simp add: merge_field_schema_def merge_field_def is_group_field_def extend_root_def
      doc_name_def dict_update_def Let_def fixture_defs)

subsection \<open>Merging a field that is already there\<close>

text \<open>
  Claim C3, as amended. Let the path \<open>p\<close> be present in the schema with descriptor \<open>F\<close>,
  other than an identifier field whose name starts with an underscore, and let the
  collaborators accept an identical descriptor: \<^verbatim>\<open>validate_fields_match(p, F, F)\<close> raises
  nothing, and \<^verbatim>\<open>F._merge_fields(p, F)\<close> finds no new field. Then
  \<^verbatim>\<open>merge_field_schema({p: F})\<close> returns \<^verbatim>\<open>False\<close>, whatever \<^verbatim>\<open>expand_schema\<close> is, and
  leaves the whole state, the registry mapping and the ordered names included, as it was.
\<close>

theorem merge_existing_field:
  assumes "merge_walk (cls st) p (butlast (split_dot p)) None (cls_fields (cls st)) = Inr flds"
      and "flds (last (split_dot p)) = Some F"
      and "\<not> (ftype F = ObjectIdField \<and> take 1 (last (split_dot p)) = ''_'')"
      and "validate \<longrightarrow> validate_fields_match en p F F = None"
      and "recursive \<and> ftype F = EmbeddedDocumentField \<longrightarrow>
             merge_fields en F p F validate recursive = Inr None \<or>
             merge_fields en F p F validate recursive = Inr (Some [])"
  shows "merge_field_schema en [(p, F)] expand_schema recursive validate st = (Inr False, st)"
proof -
  have "merge_field en p F validate recursive st = Inr None \<or>
        merge_field en p F validate recursive st = Inr (Some [])"
    using assms by (auto simp: merge_field_def Let_def)
  then show ?thesis by (auto simp: merge_field_schema_def)
qed

text \<open>The theorem at the registered field \<open>a\<close> of the sample class.\<close>

theorem merge_existing_field_witness:
  "merge_walk (cls sample_state) ''a'' (butlast (split_dot ''a'')) None (cls_fields (cls sample_state))
     = Inr (cls_fields (cls sample_state)) \<and>
   cls_fields (cls sample_state) (last (split_dot ''a'')) = Some (scalar_field ''a'' (Some ''a'')) \<and>
   ftype (scalar_field ''a'' (Some ''a'')) \<noteq> ObjectIdField \<and>
   validate_fields_match env0 ''a'' (scalar_field ''a'' (Some ''a'')) (scalar_field ''a'' (Some ''a'')) = None \<and>
   ftype (scalar_field ''a'' (Some ''a'')) \<noteq> EmbeddedDocumentField \<and>
   merge_field_schema env0 [(''a'', scalar_field ''a'' (Some ''a''))] True True True sample_state
     = (Inr False, sample_state)"
proof -
  have h1: "merge_walk (cls sample_state) ''a'' (butlast (split_dot ''a'')) None (cls_fields (cls sample_state))
     = Inr (cls_fields (cls sample_state))"
    by simp
  have h2: "cls_fields (cls sample_state) (last (split_dot ''a'')) = Some (scalar_field ''a'' (Some ''a''))"
    by (simp add: fixture_defs)
  have h3: "ftype (scalar_field ''a'' (Some ''a'')) \<noteq> ObjectIdField"
    "ftype (scalar_field ''a'' (Some ''a'')) \<noteq> EmbeddedDocumentField"
    by (simp_all add: scalar_field_def)
  have h4: "validate_fields_match env0 ''a'' (scalar_field ''a'' (Some ''a'')) (scalar_field ''a'' (Some ''a'')) = None"
    by (simp add: env0_def)
  show ?thesis
    using merge_existing_field[OF h1 h2, of True env0 True True] h1 h2 h3 h4 by simp
qed

text \<open>
  Claim C3 as stated fails for a registered identifier field \<open>_x\<close>: the merge looks for
  \<open>x\<close>, finds nothing, takes \<open>_x\<close> for new, returns \<^verbatim>\<open>True\<close> and appends a second field
  document for \<open>_x\<close>.
\<close>

theorem merge_existing_field_counterexample:
  "cls_fields (cls (state_of (declare_field (object_id_desc ''_x'') sample_class) empty_doc)) ''_x''
     = Some (object_id_desc ''_x'') \<and>
   fst (merge_field_schema env0 [(''_x'', object_id_desc ''_x'')] True True True
         (state_of (declare_field (object_id_desc ''_x'') sample_class) empty_doc)) = Inr True \<and>
   map doc_field_name (sample_fields (dataset_doc (snd
       (merge_field_schema env0 [(''_x'', object_id_desc ''_x'')] True True True
         (state_of (declare_field (object_id_desc ''_x'') sample_class) empty_doc))))) = [''_x'']"
  by (simp add: merge_field_schema_def merge_field_def is_group_field_def dict_update_def
      add_field_schema_def get_db_field_def set_name_def set_db_field_def set_null_def
      set_required_def set_field_docs_def field_docs_of_def save_def object_id_desc_def
      Let_def fixture_defs)
subsection \<open>The registry invariant\<close>

lemma declare_field_inv: "registry_inv c \<Longrightarrow> registry_inv (declare_field f c)"
  by (auto simp: registry_inv_def declare_field_def split: option.splits)

lemma delete_field_inv:
  "registry_inv c \<Longrightarrow> delete_field_registry a c = Inr c' \<Longrightarrow> registry_inv c'"
  by (auto simp: registry_inv_def delete_field_registry_def split: option.splits if_splits)

lemma distinct_map_rename:
  "distinct xs \<Longrightarrow> b \<notin> set xs \<or> b = a \<Longrightarrow> distinct (map (\<lambda>fn. if fn \<noteq> a then fn else b) xs)"
  by (induction xs) auto

lemma set_map_rename:
  "a \<in> set xs \<Longrightarrow> set (map (\<lambda>fn. if fn \<noteq> a then fn else b) xs) = insert b (set xs - {a})"
  by (induction xs) auto

lemma rename_field_inv:
  assumes "registry_inv c" "rename_field_registry a b c = Inr c'" "b = a \<or> cls_fields c b = None"
  shows "registry_inv c'"
proof -
  from assms(2) obtain f where f: "cls_fields c a = Some f"
    by (auto simp: rename_field_registry_def split: option.splits)
  with assms(1) have a: "a \<in> set (cls_fields_ordered c)" by (auto simp: registry_inv_def)
  from assms(1,3) have b: "b \<notin> set (cls_fields_ordered c) \<or> b = a"
    by (auto simp: registry_inv_def)
  from assms(1) have d: "distinct (cls_fields_ordered c)" by (simp add: registry_inv_def)
  show ?thesis
    using assms(1,2) f distinct_map_rename[OF d b] set_map_rename[OF a, of b]
    by (auto simp: registry_inv_def rename_field_registry_def Let_def split: if_splits)
qed

lemma apply_reg_op_inv: "registry_inv c \<Longrightarrow> op_ok op c \<Longrightarrow> registry_inv (apply_reg_op op c)"
  by (cases op)
     (auto simp: apply_reg_op_def op_ok_def declare_field_inv
           intro: delete_field_inv rename_field_inv split: sum.splits)

lemma run_reg_ops_inv: "registry_inv c \<Longrightarrow> ops_ok ops c \<Longrightarrow> registry_inv (run_reg_ops ops c)"
  by (induction ops arbitrary: c) (auto simp: apply_reg_op_inv)

lemma rename_position:
  "rename_field_registry a b c = Inr c' \<Longrightarrow>
     length (cls_fields_ordered c') = length (cls_fields_ordered c) \<and>
     (\<forall>i < length (cls_fields_ordered c).
        cls_fields_ordered c' ! i = (if cls_fields_ordered c ! i = a then b else cls_fields_ordered c ! i))"
  by (auto simp: rename_field_registry_def Let_def split: option.splits)

text \<open>
  Claim C4, as amended. Starting from a registry in which the keys of \<^verbatim>\<open>_fields\<close> are
  the names of \<^verbatim>\<open>_fields_ordered\<close> without duplicates, every sequence of
  \<^verbatim>\<open>_declare_field\<close>, \<^verbatim>\<open>_rename_field_schema\<close> and \<^verbatim>\<open>_delete_field_schema\<close> in which
  no rename targets a name that is registered at that moment (other than the renamed name
  itself) ends in such a registry; and a rename keeps the length of the ordered sequence
  and puts the new name exactly at the positions of the old one.
\<close>

theorem registry_invariant:
  assumes "registry_inv c" and "ops_ok ops c"
  shows "registry_inv (run_reg_ops ops c) \<and>
    (\<forall>a b c'. rename_field_registry a b (run_reg_ops ops c) = Inr c' \<longrightarrow>
       length (cls_fields_ordered c') = length (cls_fields_ordered (run_reg_ops ops c)) \<and>
       (\<forall>i < length (cls_fields_ordered c').
          cls_fields_ordered c' ! i =
            (if cls_fields_ordered (run_reg_ops ops c) ! i = a then b
             else cls_fields_ordered (run_reg_ops ops c) ! i)))"
  using run_reg_ops_inv[OF assms] rename_position by simp

text \<open>
  The theorem at a concrete sequence: declare \<open>a\<close> and \<open>b\<close>, rename \<open>a\<close> to \<open>c\<close>, delete
  \<open>b\<close>, declare \<open>d\<close>.
\<close>

theorem registry_invariant_witness:
  "registry_inv empty_class \<and>
   ops_ok [Declare (scalar_field ''a'' None), Declare (scalar_field ''b'' None),
           RenameField ''a'' ''c'', DeleteField ''b'', Declare (scalar_field ''d'' None)] empty_class \<and>
   registry_inv (run_reg_ops [Declare (scalar_field ''a'' None), Declare (scalar_field ''b'' None),
           RenameField ''a'' ''c'', DeleteField ''b'', Declare (scalar_field ''d'' None)] empty_class) \<and>
   cls_fields_ordered (run_reg_ops [Declare (scalar_field ''a'' None), Declare (scalar_field ''b'' None),
           RenameField ''a'' ''c'', DeleteField ''b'', Declare (scalar_field ''d'' None)] empty_class)
     = [''c'', ''d'']"
proof -
  have h1: "registry_inv empty_class"
    by (simp add: registry_inv_def empty_class_def)
  have h2: "ops_ok [Declare (scalar_field ''a'' None), Declare (scalar_field ''b'' None),
           RenameField ''a'' ''c'', DeleteField ''b'', Declare (scalar_field ''d'' None)] empty_class"
    by (simp add: op_ok_def apply_reg_op_def declare_field_def rename_field_registry_def
        delete_field_registry_def empty_class_def scalar_field_def)
  have h3: "cls_fields_ordered (run_reg_ops [Declare (scalar_field ''a'' None), Declare (scalar_field ''b'' None),
           RenameField ''a'' ''c'', DeleteField ''b'', Declare (scalar_field ''d'' None)] empty_class)
     = [''c'', ''d'']"
    by (simp add: op_ok_def apply_reg_op_def declare_field_def rename_field_registry_def
        delete_field_registry_def empty_class_def scalar_field_def)
  show ?thesis using registry_invariant[OF h1 h2] h1 h2 h3 by simp
qed

text \<open>
  Claim C4 as stated fails: \<^verbatim>\<open>_rename_field_schema\<close> does not look at the new name, and
  renaming \<open>a\<close> onto the registered name \<open>b\<close> lists \<open>b\<close> twice.
\<close>

theorem rename_onto_existing_counterexample:
  "cls_fields_ordered (run_reg_ops [Declare (scalar_field ''a'' None), Declare (scalar_field ''b'' None),
           RenameField ''a'' ''b''] empty_class) = [''b'', ''b''] \<and>
   \<not> registry_inv (run_reg_ops [Declare (scalar_field ''a'' None), Declare (scalar_field ''b'' None),
           RenameField ''a'' ''b''] empty_class)"
  by (simp add: registry_inv_def apply_reg_op_def declare_field_def rename_field_registry_def
        empty_class_def scalar_field_def)

subsection \<open>Renaming there and back\<close>




text \<open>
  The registry invariant can also be lost through \<^verbatim>\<open>_rename_fields\<close>: each new name is
  checked against the registry as it is before the batch, so two pairs with the same new
  name pass, and the second rename lands on the name the first has just registered.
\<close>

lemma rename_fields_same_new_name:
  "fst (rename_fields env0 [''a'', ''b''] [''c'', ''c''] sample_state) = None \<and>
   cls_fields_ordered (cls (snd (rename_fields env0 [''a'', ''b''] [''c'', ''c''] sample_state)))
     = [''id'', ''filepath'', ''c'', ''c''] \<and>
   db (snd (rename_fields env0 [''a'', ''b''] [''c'', ''c''] sample_state))
     = [Rename [(''a'', ''c''), (''b'', ''c'')]]"
  by (simp add: rename_fields_def rename_check_def get_default_fields_def is_group_field_def
      rename_fields_simple_def handle_db_fields_new_def handle_db_field_new_def get_db_field_def
      dict_of_def rename_field_schema_def rename_field_registry_def set_name_def set_db_field_def
      set_field_docs_def field_docs_of_def rename_field_docs_def save_def Let_def fixture_defs)
subsection \<open>The update extractor\<close>

lemma split_dot_dets: "split_dot ''dets.detections'' = [''dets'', ''detections'']"
  by simp

lemma py_int_1: "py_int ''1'' = Inr 1"
  by (simp add: py_int_def is_space_def digit_of_def)

lemma tail_label: "tail_of ''dets.detections.1.label'' ''dets.detections'' = ''1.label''"
  "tail_of ''dets.detections.1'' ''dets.detections'' = ''1''"
  "tail_of ''dets.detections'' ''dets.detections'' = ''''"
  by (simp_all add: tail_of_def)

lemma starts_dets:
  "startswith ''dets.detections.1.label'' ''dets.detections''"
  "startswith ''dets.detections.1'' ''dets.detections''"
  "startswith ''dets.detections'' ''dets.detections''"
  by (simp_all add: startswith_def)

lemma parse_label:
  assumes "getitem_str self ''dets'' = Inr dets"
      and "getitem_str dets ''detections'' = Inr (VList els)"
      and "1 < length els"
      and "get_id (els ! 1) = Inr eid"
  shows "parse_id_and_array_filter self ''dets.detections.1.label'' ''dets.detections''
           = Inr (eid, ''dets.detections.$[element].label'')"
proof -
  have w: "walk_fields self (split_dot ''dets.detections'') = Inr (VList els)"
    using assms(1,2) by (simp only: split_dot_dets walk_fields.simps sum.case)
  have s: "split_dot (tail_of ''dets.detections.1.label'' ''dets.detections'') = [''1'', ''label'']"
    by (simp add: tail_label)
  have g: "getitem_int (VList els) 1 = Inr (els ! 1)"
    using assms(3) by (simp add: getitem_int_def py_index_def)
  show ?thesis
    unfolding parse_id_and_array_filter_def
    by (simp only: w s py_int_1 g assms(4) sum.case list.case prod.case) simp
qed

lemma extract_loop_no_prefix:
  "\<forall>kv \<in> set d. \<forall>ff \<in> set ffs. \<not> startswith (fst kv) ff \<Longrightarrow>
     extract_loop self ffs d = Inr ([], [])"
proof (induction d)
  case Nil
  then show ?case by simp
next
  case (Cons kv d)
  then have "find (\<lambda>ff. startswith (fst kv) ff) ffs = None"
    by (simp add: find_None_iff)
  then show ?case using Cons by simp
qed

lemma find_no_illegal:
  "\<forall>k \<in> set ks. \<not> illegal_key ffs k \<Longrightarrow> find (illegal_key ffs) ks = None"
  by (simp add: find_None_iff)

lemma extract_extra_updates_set:
  assumes "ffs \<noteq> []"
      and "find (illegal_key ffs) (concat (map (\<lambda>od. map fst (snd od)) u)) = None"
      and "map_of u ''$set'' = Some d"
      and "extract_loop self ffs d = Inr (ex, dk)"
  shows "extract_extra_updates self u (Some ffs) =
           Inr (ex, if filter (\<lambda>kv. fst kv \<notin> set dk) d = []
                    then filter (\<lambda>od. fst od \<noteq> ''$set'') u
                    else map (\<lambda>od. if fst od = ''$set''
                                   then (fst od, filter (\<lambda>kv. fst kv \<notin> set dk) d) else od) u)"
  using assms by (simp add: extract_extra_updates_def)

text \<open>
  Claim C8. Let the document hold a list \<open>dets.detections\<close> whose element at index 1 has
  the identifier \<open>eid\<close>, and let \<open>dets.detections\<close> be the filtered field. For an
  update whose \<^verbatim>\<open>$set\<close> holds \<open>dets.detections.1.label\<close>, and otherwise only keys that do
  not start with the filtered field, \<^verbatim>\<open>_extract_extra_updates\<close> returns the one extra
  update \<^verbatim>\<open>{"$set": {"dets.detections.$[element].label": v}}\<close> paired with \<open>eid\<close>, and
  leaves the update document without that key (without \<^verbatim>\<open>$set\<close> when the key was alone).
  An update of \<open>dets.detections\<close> or of \<open>dets.detections.1\<close>, under any operator, raises
  the validation error and produces nothing.
\<close>

theorem extract_list_element_update:
  assumes "getitem_str self ''dets'' = Inr dets"
      and "getitem_str dets ''detections'' = Inr (VList els)"
      and "1 < length els"
      and "get_id (els ! 1) = Inr eid"
      and "\<forall>kv \<in> set rest. \<not> startswith (fst kv) ''dets.detections''"
  shows "extract_extra_updates self
           [(''$set'', (''dets.detections.1.label'', v) # rest)] (Some [''dets.detections''])
         = Inr ([([(''$set'', [(''dets.detections.$[element].label'', v)])], eid)],
                if rest = [] then [] else [(''$set'', rest)]) \<and>
         extract_extra_updates self [(op, [(''dets.detections'', v)])] (Some [''dets.detections''])
         = Inl (ValueError (ModifyingRoot ''dets.detections'')) \<and>
         extract_extra_updates self [(op, [(''dets.detections.1'', v)])] (Some [''dets.detections''])
         = Inl (ValueError (ModifyingRoot ''dets.detections.1''))"
proof -
  let ?k = "''dets.detections.1.label''" and ?ff = "''dets.detections''"
  have nk: "\<not> illegal_key [?ff] ?k"
    by (simp add: illegal_key_def starts_dets tail_label)
  have nr: "\<forall>k \<in> set (map fst rest). \<not> illegal_key [?ff] k"
    using assms(5) by (auto simp: illegal_key_def)
  have chk: "find (illegal_key [?ff]) (concat (map (\<lambda>od. map fst (snd od)) [(''$set'', (?k, v) # rest)])) = None"
    using nk nr by (simp add: find_None_iff)
  have lr: "extract_loop self [?ff] rest = Inr ([], [])"
    using assms(5) by (intro extract_loop_no_prefix) simp
  have loop: "extract_loop self [?ff] ((?k, v) # rest)
      = Inr ([([(''$set'', [(''dets.detections.$[element].label'', v)])], eid)], [?k])"
    using parse_label[OF assms(1-4)] lr by (simp add: starts_dets)
  have ne: "\<forall>kv \<in> set rest. fst kv \<noteq> ?k"
    using assms(5) starts_dets(1) by auto
  then have flt: "filter (\<lambda>kv. fst kv \<notin> set [?k]) ((?k, v) # rest) = rest"
    by (simp add: filter_id_conv)
  have m: "map_of [(''$set'', (?k, v) # rest)] ''$set'' = Some ((?k, v) # rest)" by simp
  have n: "[?ff] \<noteq> []" by simp
  have a: "extract_extra_updates self [(''$set'', (?k, v) # rest)] (Some [?ff])
         = Inr ([([(''$set'', [(''dets.detections.$[element].label'', v)])], eid)],
                if rest = [] then [] else [(''$set'', rest)])"
    unfolding extract_extra_updates_set[OF n chk m loop] flt by simp
  have b: "extract_extra_updates self [(op, [(?ff, v)])] (Some [?ff])
         = Inl (ValueError (ModifyingRoot ?ff))"
    by (simp add: extract_extra_updates_def illegal_key_def starts_dets tail_label)
  have c: "extract_extra_updates self [(op, [(''dets.detections.1'', v)])] (Some [?ff])
         = Inl (ValueError (ModifyingRoot ''dets.detections.1''))"
    by (simp add: extract_extra_updates_def illegal_key_def starts_dets tail_label)
  show ?thesis using a b c by simp
qed

text \<open>
  The theorem on the sample document: the element at index 1 has the identifier \<open>id1\<close>,
  and the update also sets \<open>filepath\<close>, which stays in the update document.
\<close>

theorem extract_list_element_update_witness:
  "getitem_str sample_document ''dets''
     = Inr (VDoc [(''detections'',
              VList [VDoc [(''_id'', VObjectId ''id0''), (''label'', VStr ''cat'')],
                     VDoc [(''_id'', VObjectId ''id1''), (''label'', VStr ''dog'')]])]) \<and>
   extract_extra_updates sample_document
     [(''$set'', [(''dets.detections.1.label'', VStr ''fox''), (''filepath'', VStr ''new.png'')])]
     (Some [''dets.detections''])
   = Inr ([([(''$set'', [(''dets.detections.$[element].label'', VStr ''fox'')])], VObjectId ''id1'')],
          [(''$set'', [(''filepath'', VStr ''new.png'')])]) \<and>
   extract_extra_updates sample_document [(''$set'', [(''dets.detections'', VList [])])]
     (Some [''dets.detections''])
   = Inl (ValueError (ModifyingRoot ''dets.detections'')) \<and>
   extract_extra_updates sample_document [(''$set'', [(''dets.detections.1'', VNone)])]
     (Some [''dets.detections''])
   = Inl (ValueError (ModifyingRoot ''dets.detections.1''))"
proof -
  let ?els = "[VDoc [(''_id'', VObjectId ''id0''), (''label'', VStr ''cat'')],
               VDoc [(''_id'', VObjectId ''id1''), (''label'', VStr ''dog'')]]"
  have h1: "getitem_str sample_document ''dets'' = Inr (VDoc [(''detections'', VList ?els)])"
    by (simp add: getitem_str_def sample_document_def)
  have h2: "getitem_str (VDoc [(''detections'', VList ?els)]) ''detections'' = Inr (VList ?els)"
    by (simp add: getitem_str_def)
  have h3: "1 < length ?els" by simp
  have h4: "get_id (?els ! 1) = Inr (VObjectId ''id1'')"
    by (simp add: get_id_def)
  have h5: "\<forall>kv \<in> set [(''filepath'', VStr ''new.png'')]. \<not> startswith (fst kv) ''dets.detections''"
    by (simp add: startswith_def)
  show ?thesis
    using extract_list_element_update[OF h1 h2 h3 h4 h5, of "VStr ''fox''" "''$set''" ]
      extract_list_element_update[OF h1 h2 h3 h4 h5, of "VList []" "''$set''"]
      extract_list_element_update[OF h1 h2 h3 h4 h5, of "VNone" "''$set''"] h1
    by simp
qed

text \<open>
  Claim C9. The check for illegal modifications compares raw string prefixes: whenever
  some key \<open>k\<close> of some operator of the update starts with the characters of a filtered
  field \<open>ff\<close> and the rest of \<open>k\<close>, after its leading dots, has no dot,
  \<^verbatim>\<open>_extract_extra_updates\<close> raises the validation error, for the first such key of the
  update. The key need not address the filtered list: the sibling field
  \<open>dets.detections2\<close> is refused under the filtered field \<open>dets.detections\<close>.
\<close>

theorem illegal_modification_by_prefix:
  assumes "ff \<in> set ffs" and "(op, d) \<in> set update_doc" and "(k, v) \<in> set d"
      and "startswith k ff" and "CHR ''.'' \<notin> set (tail_of k ff)"
  shows "\<exists>k'. find (illegal_key ffs) (concat (map (\<lambda>od. map fst (snd od)) update_doc)) = Some k' \<and>
              illegal_key ffs k' \<and>
              extract_extra_updates self update_doc (Some ffs) = Inl (ValueError (ModifyingRoot k'))"
proof -
  have ik: "illegal_key ffs k"
    using assms(1,4,5) by (auto simp: illegal_key_def list_ex_iff)
  have mem: "k \<in> set (concat (map (\<lambda>od. map fst (snd od)) update_doc))"
    using assms(2,3) by force
  then obtain k' where f: "find (illegal_key ffs) (concat (map (\<lambda>od. map fst (snd od)) update_doc)) = Some k'"
    using ik by (cases "find (illegal_key ffs) (concat (map (\<lambda>od. map fst (snd od)) update_doc))")
       (auto simp: find_None_iff)
  then have "illegal_key ffs k'" by (auto simp: find_Some_iff)
  moreover have "ffs \<noteq> []" using assms(1) by auto
  ultimately show ?thesis using f by (simp add: extract_extra_updates_def)
qed

text \<open>The theorem at the key \<open>dets.detections2\<close> under the filtered field \<open>dets.detections\<close>.\<close>

theorem illegal_modification_by_prefix_witness:
  "''dets.detections'' \<in> set [''dets.detections''] \<and>
   (''$set'', [(''dets.detections2'', VInt 7)]) \<in> set [(''$set'', [(''dets.detections2'', VInt 7)])] \<and>
   (''dets.detections2'', VInt 7) \<in> set [(''dets.detections2'', VInt 7)] \<and>
   startswith ''dets.detections2'' ''dets.detections'' \<and>
   CHR ''.'' \<notin> set (tail_of ''dets.detections2'' ''dets.detections'') \<and>
   extract_extra_updates sample_document [(''$set'', [(''dets.detections2'', VInt 7)])]
     (Some [''dets.detections''])
   = Inl (ValueError (ModifyingRoot ''dets.detections2''))"
proof -
  have h1: "''dets.detections'' \<in> set [''dets.detections'']" by simp
  have h2: "(''$set'', [(''dets.detections2'', VInt 7)]) \<in> set [(''$set'', [(''dets.detections2'', VInt 7)])]"
    by simp
  have h3: "(''dets.detections2'', VInt 7) \<in> set [(''dets.detections2'', VInt 7)]" by simp
  have h4: "startswith ''dets.detections2'' ''dets.detections''" by (simp add: startswith_def)
  have h5: "CHR ''.'' \<notin> set (tail_of ''dets.detections2'' ''dets.detections'')"
    by (simp add: tail_of_def)
  from illegal_modification_by_prefix[OF h1 h2 h3 h4 h5, of sample_document]
  obtain k' where
    k: "find (illegal_key [''dets.detections''])
          (concat (map (\<lambda>od. map fst (snd od)) [(''$set'', [(''dets.detections2'', VInt 7)])])) = Some k'"
    and r: "extract_extra_updates sample_document [(''$set'', [(''dets.detections2'', VInt 7)])]
              (Some [''dets.detections'']) = Inl (ValueError (ModifyingRoot k'))"
    by blast
  from k have "k' = ''dets.detections2''" by (simp split: if_splits)
  with r h1 h2 h3 h4 h5 show ?thesis by simp
qed

end
